theory Spec2Isabelle
  imports Complex_Main
begin

section \<open>JavaScript values\<close>

text \<open>
  The budget engine of \<^verbatim>\<open>YAET.js\<close> works on JavaScript numbers. A number is modelled as
  a rational. The sections up to the aggregation engine compute with the exact
  operations; the section on rounding arithmetic gives the summary once more with the
  operations as a parameter, the rounding of doubles being one choice. The infinities
  are outside the model. Fields that the code reads through \<^verbatim>\<open>parseFloat\<close> can be missing or
  non-numeric: such a field is a \<open>jsval\<close>, where \<open>Undefined\<close> is an absent field and
  \<open>NaN\<close> stands for any stored value that \<^verbatim>\<open>parseFloat\<close> cannot read as a number.
\<close>

datatype jsval = Undefined | NaN | Num rat

fun parseFloat :: "jsval \<Rightarrow> jsval" where
  "parseFloat (Num q) = Num q"
| "parseFloat Undefined = NaN"
| "parseFloat NaN = NaN"

text \<open>Truthiness of a value: \<^verbatim>\<open>undefined\<close>, \<^verbatim>\<open>NaN\<close> and \<^verbatim>\<open>0\<close> are falsy.\<close>

fun truthy :: "jsval \<Rightarrow> bool" where
  "truthy (Num q) = (q \<noteq> 0)"
| "truthy Undefined = False"
| "truthy NaN = False"

text \<open>\<^verbatim>\<open>a || b\<close> on values.\<close>

definition orElse :: "jsval \<Rightarrow> jsval \<Rightarrow> jsval" where
  "orElse a b = (if truthy a then a else b)"

text \<open>
  \<^verbatim>\<open>x || 0\<close> read as a number: \<open>x\<close> itself when it is a non-zero number, and \<open>0\<close> for
  \<^verbatim>\<open>0\<close>, \<^verbatim>\<open>NaN\<close> and \<^verbatim>\<open>undefined\<close>.
\<close>

definition orZero :: "jsval \<Rightarrow> rat" where
  "orZero x = (case orElse x (Num 0) of Num q \<Rightarrow> q | _ \<Rightarrow> 0)"

text \<open>\<^verbatim>\<open>s || dflt\<close> on an optional string: an absent and an empty string are falsy.\<close>

definition strOr :: "string option \<Rightarrow> string \<Rightarrow> string" where
  "strOr s dflt = (case s of None \<Rightarrow> dflt | Some t \<Rightarrow> (if t = [] then dflt else t))"

section \<open>The frequency normalizer\<close>

definition AVG_DAYS_PER_MONTH :: rat where
  "AVG_DAYS_PER_MONTH = 30.4375"

text \<open>
  \<^verbatim>\<open>calculateCycleBudget(baseLimit, baseFrequency, cycleMonths)\<close>. The frequency is
  \<open>None\<close> when the argument is \<^verbatim>\<open>undefined\<close>; the \<^verbatim>\<open>switch\<close> compares it with the three
  codes in the order of the source and falls to \<^verbatim>\<open>default\<close> otherwise.
\<close>

definition calculateCycleBudget :: "jsval \<Rightarrow> string option \<Rightarrow> int \<Rightarrow> rat" where
  "calculateCycleBudget baseLimit baseFrequency cycleMonths =
     (let limit = orZero (parseFloat baseLimit) in
      if limit \<le> 0 then 0
      else if baseFrequency = Some ''daily'' then
        limit * of_int cycleMonths * AVG_DAYS_PER_MONTH
      else if baseFrequency = Some ''monthly'' then
        limit * of_int cycleMonths
      else if baseFrequency = Some ''bimonthly'' then
        limit * (of_int cycleMonths / 2)
      else limit * of_int cycleMonths)"

text \<open>
  The reference definition of the specification (section 4.1), written from its words:
  the parsed base limit with \<^verbatim>\<open>NaN\<close> and an absent value coerced to \<open>0\<close>, the result \<open>0\<close>
  for a limit that is not positive, and one multiplier per frequency, unknown and unset
  frequencies taking the monthly one.
\<close>

fun parsedLimit :: "jsval \<Rightarrow> rat" where
  "parsedLimit (Num q) = q"
| "parsedLimit Undefined = 0"
| "parsedLimit NaN = 0"

definition cycleMultiplier :: "string option \<Rightarrow> int \<Rightarrow> rat" where
  "cycleMultiplier f cycleMonths =
     (case f of
        None \<Rightarrow> of_int cycleMonths
      | Some code \<Rightarrow>
          (if code = ''bimonthly'' then of_int cycleMonths / 2
           else if code = ''daily'' then of_int cycleMonths * (30 + 4375 / 10000)
           else of_int cycleMonths))"

definition cycleAmount :: "jsval \<Rightarrow> string option \<Rightarrow> int \<Rightarrow> rat" where
  "cycleAmount baseLimit f cycleMonths =
     (if parsedLimit baseLimit \<le> 0 then 0
      else parsedLimit baseLimit * cycleMultiplier f cycleMonths)"

section \<open>Dates\<close>

text \<open>
  A \<^verbatim>\<open>Date\<close> is held by its local calendar fields, as the getters of the source read
  them: year, month (0 to 11), day of the month and the milliseconds since local
  midnight. The time zone is fixed (no daylight-saving shifts), and the range limit of
  JavaScript time values is not modelled.
\<close>

record jsdate =
  getFullYear :: int
  getMonth :: int
  getDate :: int
  msOfDay :: int

definition isLeapYear :: "int \<Rightarrow> bool" where
  "isLeapYear y = (y mod 4 = 0 \<and> (y mod 100 \<noteq> 0 \<or> y mod 400 = 0))"

definition daysInMonth :: "int \<Rightarrow> int \<Rightarrow> int" where
  "daysInMonth y m =
     (if m = 1 then (if isLeapYear y then 29 else 28)
      else if m = 3 \<or> m = 5 \<or> m = 8 \<or> m = 10 then 30
      else 31)"

definition validDate :: "jsdate \<Rightarrow> bool" where
  "validDate d =
     (0 \<le> getMonth d \<and> getMonth d < 12 \<and>
      1 \<le> getDate d \<and> getDate d \<le> daysInMonth (getFullYear d) (getMonth d) \<and>
      0 \<le> msOfDay d \<and> msOfDay d < 86400000)"

text \<open>
  A reading of the clock, \<^verbatim>\<open>new Date()\<close>: a valid date whose year is not one of 0 to 99,
  the years that the \<^verbatim>\<open>Date\<close> constructor reads as 1900 to 1999.
\<close>

definition clockDate :: "jsdate \<Rightarrow> bool" where
  "clockDate d = (validDate d \<and> \<not> (0 \<le> getFullYear d \<and> getFullYear d \<le> 99))"

definition prevMonth :: "int \<times> int \<Rightarrow> int \<times> int" where
  "prevMonth ym = (case ym of (y, m) \<Rightarrow> if m = 0 then (y - 1, 11) else (y, m - 1))"

definition nextMonth :: "int \<times> int \<Rightarrow> int \<times> int" where
  "nextMonth ym = (case ym of (y, m) \<Rightarrow> if m = 11 then (y + 1, 0) else (y, m + 1))"

text \<open>
  Day overflow as the \<^verbatim>\<open>Date\<close> constructor and setters resolve it: a day before the 1st
  counts back from the end of the month before, a day after the last day of the month
  runs on into the months after. The month is already within 0 to 11.
\<close>

function normDay :: "int \<Rightarrow> int \<Rightarrow> int \<Rightarrow> int \<times> int \<times> int" where
  "normDay y m d =
     (if d < 1 then
        (case prevMonth (y, m) of (y', m') \<Rightarrow> normDay y' m' (d + daysInMonth y' m'))
      else if daysInMonth y m < d then
        (case nextMonth (y, m) of (y', m') \<Rightarrow> normDay y' m' (d - daysInMonth y m))
      else (y, m, d))"
  by pat_completeness auto
termination
  by (relation "measure (\<lambda>(y, m, d). nat (if d < 1 then 32 - d else d))")
     (auto simp: daysInMonth_def prevMonth_def nextMonth_def split: if_splits)

declare normDay.simps [simp del]

text \<open>A month outside 0 to 11 carries into the year.\<close>

definition makeDay :: "int \<Rightarrow> int \<Rightarrow> int \<Rightarrow> int \<times> int \<times> int" where
  "makeDay y m d = normDay (y + m div 12) (m mod 12) d"

text \<open>
  \<^verbatim>\<open>new Date(year, month, day)\<close>: local midnight of that day; the constructor reads a
  year from 0 to 99 as 1900 plus that year.
\<close>

definition newDate :: "int \<Rightarrow> int \<Rightarrow> int \<Rightarrow> jsdate" where
  "newDate y m d =
     (case makeDay (if 0 \<le> y \<and> y \<le> 99 then 1900 + y else y) m d of
        (y', m', d') \<Rightarrow> \<lparr>getFullYear = y', getMonth = m', getDate = d', msOfDay = 0\<rparr>)"

definition setMonth :: "jsdate \<Rightarrow> int \<Rightarrow> jsdate" where
  "setMonth dt m =
     (case makeDay (getFullYear dt) m (getDate dt) of
        (y', m', d') \<Rightarrow>
          \<lparr>getFullYear = y', getMonth = m', getDate = d', msOfDay = msOfDay dt\<rparr>)"

definition setDate :: "jsdate \<Rightarrow> int \<Rightarrow> jsdate" where
  "setDate dt d =
     (case makeDay (getFullYear dt) (getMonth dt) d of
        (y', m', d') \<Rightarrow>
          \<lparr>getFullYear = y', getMonth = m', getDate = d', msOfDay = msOfDay dt\<rparr>)"

text \<open>
  The time value behind the comparisons \<^verbatim>\<open>>=\<close> and \<^verbatim>\<open><=\<close> of two dates: milliseconds
  since 1 January 1970, from the day number of the calendar fields.
\<close>

definition dayFromYear :: "int \<Rightarrow> int" where
  "dayFromYear y =
     365 * (y - 1970) + (y - 1969) div 4 - (y - 1901) div 100 + (y - 1601) div 400"

definition dayNumber :: "int \<Rightarrow> int \<Rightarrow> int \<Rightarrow> int" where
  "dayNumber y m d = dayFromYear y + sum_list (map (daysInMonth y) [0..m - 1]) + (d - 1)"

definition valueOf :: "jsdate \<Rightarrow> int" where
  "valueOf dt =
     dayNumber (getFullYear dt) (getMonth dt) (getDate dt) * 86400000 + msOfDay dt"

section \<open>The cycle window calculator\<close>

text \<open>
  \<^verbatim>\<open>startOfCycle(cycleMonths)\<close>. The source reads the clock with \<^verbatim>\<open>new Date()\<close>; the
  model takes that reading as the argument \<open>now\<close>.
\<close>

definition startOfCycle :: "jsdate \<Rightarrow> int \<Rightarrow> jsdate" where
  "startOfCycle now cycleMonths =
     (let date = newDate (getFullYear now) (getMonth now) 1;
          date = setMonth date (getMonth now - (cycleMonths - 1));
          date = setDate date 1
      in date)"

text \<open>
  The specification's words for the start of the current cycle (section 4.2): truncate
  \<open>now\<close> to the first day of its month at midnight, then step back whole months, one at
  a time.
\<close>

definition truncateToMonth :: "jsdate \<Rightarrow> jsdate" where
  "truncateToMonth dt = dt\<lparr>getDate := 1, msOfDay := 0\<rparr>"

definition stepBackMonth :: "jsdate \<Rightarrow> jsdate" where
  "stepBackMonth dt =
     (if getMonth dt = 0 then dt\<lparr>getFullYear := getFullYear dt - 1, getMonth := 11\<rparr>
      else dt\<lparr>getMonth := getMonth dt - 1\<rparr>)"

definition monthsBack :: "nat \<Rightarrow> jsdate \<Rightarrow> jsdate" where
  "monthsBack k dt = (stepBackMonth ^^ k) dt"

text \<open>
  The historical windows of \<^verbatim>\<open>ExpenseCycleBarChart\<close>: the two dates that the body of
  its loop builds for the cycle index \<open>i\<close>.
\<close>

definition cycleEndDate :: "jsdate \<Rightarrow> int \<Rightarrow> nat \<Rightarrow> jsdate" where
  "cycleEndDate now cycleMonths i =
     (let endDate = newDate (getFullYear now) (getMonth now) (getDate now)
      in setMonth endDate (getMonth now - (int i * cycleMonths)))"

definition cycleStartDate :: "jsdate \<Rightarrow> int \<Rightarrow> nat \<Rightarrow> jsdate" where
  "cycleStartDate now cycleMonths i =
     (let startDate = newDate (getFullYear now) (getMonth now) 1
      in setMonth startDate (getMonth now - ((int i + 1) * cycleMonths) + 1))"

text \<open>
  The specification's words for the end of window \<open>i\<close> (section 4.2): \<open>now\<close> shifted back
  by \<open>i * cycleMonths\<close> months.
\<close>

definition shiftedBack :: "jsdate \<Rightarrow> int \<Rightarrow> nat \<Rightarrow> jsdate" where
  "shiftedBack now cycleMonths i = monthsBack (nat (int i * cycleMonths)) now"

text \<open>The months a window spans are counted on one axis, \<open>12 * year + month\<close>.\<close>

definition monthIndex :: "jsdate \<Rightarrow> int" where
  "monthIndex dt = 12 * getFullYear dt + getMonth dt"

section \<open>Records of the store\<close>

text \<open>
  A category document. \<open>cat_baseLimit\<close> and the deprecated \<open>cat_budgetLimit\<close> are the
  fields \<^verbatim>\<open>baseLimit\<close> and \<^verbatim>\<open>budgetLimit\<close>, \<open>cat_baseFrequency\<close> is \<^verbatim>\<open>baseFrequency\<close>;
  a missing string field is \<open>None\<close>.
\<close>

record category =
  cat_id :: string
  cat_name :: string
  cat_baseLimit :: jsval
  cat_budgetLimit :: jsval
  cat_baseFrequency :: "string option"
  cat_color :: "string option"
  cat_icon :: "string option"

text \<open>
  A transaction as the expenses listener hands it on: the amount already read by
  \<^verbatim>\<open>parseFloat\<close> (a number), the timestamp a \<^verbatim>\<open>Date\<close>. \<open>tx_type\<close> is the field \<^verbatim>\<open>type\<close>.
\<close>

record transaction =
  tx_id :: string
  tx_amount :: rat
  tx_type :: string
  tx_categoryId :: string
  tx_source :: string
  tx_timestamp :: jsdate

record settings =
  currencyCode :: string
  cycleMonths :: int

text \<open>
  The categories listener: \<^verbatim>\<open>sanitizedCats\<close> maps every loaded category to a copy with
  \<^verbatim>\<open>baseLimit\<close> and \<^verbatim>\<open>baseFrequency\<close> replaced. The sort by name that follows it is
  not modelled.
\<close>

definition sanitizeCat :: "category \<Rightarrow> category" where
  "sanitizeCat cat =
     cat\<lparr>cat_baseLimit :=
           Num (orZero (orElse (parseFloat (cat_baseLimit cat))
                               (parseFloat (cat_budgetLimit cat)))),
         cat_baseFrequency := Some (strOr (cat_baseFrequency cat) ''monthly'')\<rparr>"

definition sanitizedCats :: "category list \<Rightarrow> category list" where
  "sanitizedCats cats = map sanitizeCat cats"

section \<open>The ledger view of the current cycle\<close>

definition filterData :: "transaction list \<Rightarrow> jsdate \<Rightarrow> transaction list" where
  "filterData data startDate =
     filter (\<lambda>item. valueOf startDate \<le> valueOf (tx_timestamp item)) data"

text \<open>\<^verbatim>\<open>settings.cycleMonths || 1\<close>.\<close>

definition cycleMonthsOr1 :: "settings \<Rightarrow> int" where
  "cycleMonthsOr1 s = (if cycleMonths s = 0 then 1 else cycleMonths s)"

definition currentCycleStart :: "jsdate \<Rightarrow> settings \<Rightarrow> jsdate" where
  "currentCycleStart now s = startOfCycle now (cycleMonthsOr1 s)"

definition cycleExpenses :: "jsdate \<Rightarrow> settings \<Rightarrow> transaction list \<Rightarrow> transaction list" where
  "cycleExpenses now s expenses =
     filterData (filter (\<lambda>e. tx_type e = ''expense'') expenses) (currentCycleStart now s)"

definition cycleBudgets :: "jsdate \<Rightarrow> settings \<Rightarrow> transaction list \<Rightarrow> transaction list" where
  "cycleBudgets now s expenses =
     filterData (filter (\<lambda>e. tx_type e = ''budget'') expenses) (currentCycleStart now s)"

section \<open>The aggregation engine\<close>

definition COLORS :: "string list" where
  "COLORS =
     [''#673AB7'', ''#03A9F4'', ''#009688'', ''#FF9800'', ''#F44336'',
      ''#E91E63'', ''#9C27B0'', ''#3F51B5'', ''#00BCD4'', ''#4CAF50'']"

record chartRow =
  row_name :: string
  row_value :: rat
  row_color :: string
  row_id :: string
  row_budgetLimit :: rat
  row_baseFrequency :: "string option"
  row_baseLimit :: rat

record summary_rec =
  totalBudgetLimit :: rat
  totalActualBudget :: rat
  totalExpenses :: rat
  remaining :: rat
  expenseByCategory :: "string \<rightharpoonup> rat"
  chartData :: "chartRow list"

text \<open>\<^verbatim>\<open>acc[key] || 0\<close> on an object whose values are numbers.\<close>

definition lookupOrZero :: "(string \<rightharpoonup> rat) \<Rightarrow> string \<Rightarrow> rat" where
  "lookupOrZero acc key = (case acc key of None \<Rightarrow> 0 | Some v \<Rightarrow> v)"

definition addExpense :: "(string \<rightharpoonup> rat) \<Rightarrow> transaction \<Rightarrow> (string \<rightharpoonup> rat)" where
  "addExpense acc expense =
     (let categoryId = tx_categoryId expense
      in acc(categoryId \<mapsto> lookupOrZero acc categoryId + tx_amount expense))"

definition chartRowOf :: "(string \<rightharpoonup> rat) \<Rightarrow> int \<Rightarrow> nat \<times> category \<Rightarrow> chartRow" where
  "chartRowOf byCategory months ic =
     (case ic of (index, cat) \<Rightarrow>
        (let calculatedLimit =
               calculateCycleBudget (cat_baseLimit cat) (cat_baseFrequency cat) months
         in \<lparr>row_name = cat_name cat,
             row_value = lookupOrZero byCategory (cat_id cat),
             row_color = strOr (cat_color cat) (COLORS ! (index mod length COLORS)),
             row_id = cat_id cat,
             row_budgetLimit = calculatedLimit,
             row_baseFrequency = cat_baseFrequency cat,
             row_baseLimit = orZero (parseFloat (cat_baseLimit cat))\<rparr>))"

text \<open>
  The \<^verbatim>\<open>summary\<close> memo of the application, over the categories, the two partitions of
  the current cycle and the settings.
\<close>

definition summary ::
  "category list \<Rightarrow> transaction list \<Rightarrow> transaction list \<Rightarrow> settings \<Rightarrow> summary_rec" where
  "summary categories cycExpenses cycBudgets s =
     (let months = cycleMonthsOr1 s;
          totalLimit =
            foldl (\<lambda>sum cat.
                     sum + calculateCycleBudget (cat_baseLimit cat) (cat_baseFrequency cat) months)
                  0 categories;
          totalActual = foldl (\<lambda>sum entry. sum + tx_amount entry) 0 cycBudgets;
          totalExp = foldl (\<lambda>sum entry. sum + tx_amount entry) 0 cycExpenses;
          remain = totalLimit - totalExp;
          byCategory = foldl addExpense Map.empty cycExpenses;
          rows =
            filter (\<lambda>item. 0 < row_value item \<or> 0 < row_budgetLimit item)
                   (map (chartRowOf byCategory months) (enumerate 0 categories))
      in \<lparr>totalBudgetLimit = totalLimit, totalActualBudget = totalActual,
          totalExpenses = totalExp, remaining = remain,
          expenseByCategory = byCategory, chartData = rows\<rparr>)"

text \<open>
  The summary as the application derives it from its state: the categories, the whole
  transaction log, the settings and the clock.
\<close>

definition summarize ::
  "jsdate \<Rightarrow> category list \<Rightarrow> transaction list \<Rightarrow> settings \<Rightarrow> summary_rec" where
  "summarize now categories expenses s =
     summary categories (cycleExpenses now s expenses) (cycleBudgets now s expenses) s"


text \<open>
  The percentage that \<^verbatim>\<open>ExpensesTab\<close> computes for a row of \<open>chartData\<close>. The source
  reads \<^verbatim>\<open>data.value || 0\<close> and \<^verbatim>\<open>data.budgetLimit || 0\<close>, which are the two numbers
  themselves.
\<close>

definition percentage :: "chartRow \<Rightarrow> rat" where
  "percentage data =
     (let spent = row_value data; limit = row_budgetLimit data
      in if 0 < limit then (spent / limit) * 100 else 0)"

section \<open>The historical comparison builder\<close>

record cycleEntry =
  entry_name :: string
  entry_Expenses :: rat
  entry_isCurrent :: bool

text \<open>
  The locale-dependent renderings \<^verbatim>\<open>toLocaleString('default', {month: 'short'})\<close> and
  \<^verbatim>\<open>toLocaleString('default', {month: 'short', year: 'numeric'})\<close> are the parameters
  \<open>fmtMonth\<close> and \<open>fmtMonthYear\<close>.
\<close>

definition cycleLabel ::
  "(jsdate \<Rightarrow> string) \<Rightarrow> (jsdate \<Rightarrow> string) \<Rightarrow> jsdate \<Rightarrow> jsdate \<Rightarrow> nat \<Rightarrow> string" where
  "cycleLabel fmtMonth fmtMonthYear startDate endDate i =
     (let labelStart = newDate (getFullYear startDate) (getMonth startDate) 1;
          labelEnd = newDate (getFullYear endDate) (getMonth endDate + 1) 0
      in if i = 0 then ''Current''
         else fmtMonth labelStart @ ''-'' @ drop 2 (fmtMonthYear labelEnd))"

definition windowExpenses :: "transaction list \<Rightarrow> jsdate \<Rightarrow> jsdate \<Rightarrow> transaction list" where
  "windowExpenses expenses startDate endDate =
     filter (\<lambda>exp. tx_type exp = ''expense'' \<and>
                    valueOf startDate \<le> valueOf (tx_timestamp exp) \<and>
                    valueOf (tx_timestamp exp) \<le> valueOf endDate) expenses"

definition cycleEntryAt ::
  "(jsdate \<Rightarrow> string) \<Rightarrow> (jsdate \<Rightarrow> string) \<Rightarrow> jsdate \<Rightarrow> transaction list \<Rightarrow> int \<Rightarrow> nat
     \<Rightarrow> cycleEntry" where
  "cycleEntryAt fmtMonth fmtMonthYear now expenses months i =
     (let endDate = cycleEndDate now months i;
          startDate = cycleStartDate now months i;
          label = cycleLabel fmtMonth fmtMonthYear startDate endDate i;
          totalExpense =
            foldl (\<lambda>sum exp. sum + tx_amount exp) 0 (windowExpenses expenses startDate endDate)
      in \<lparr>entry_name = label, entry_Expenses = totalExpense, entry_isCurrent = (i = 0)\<rparr>)"

definition numCycles :: nat where
  "numCycles = 5"

text \<open>The \<^verbatim>\<open>for\<close> loop: \<open>i\<close> counts up to \<open>numCycles\<close>, each round pushes one entry.\<close>

function cycleLoop ::
  "(jsdate \<Rightarrow> string) \<Rightarrow> (jsdate \<Rightarrow> string) \<Rightarrow> jsdate \<Rightarrow> transaction list \<Rightarrow> int \<Rightarrow> nat
     \<Rightarrow> cycleEntry list \<Rightarrow> cycleEntry list" where
  "cycleLoop fmtMonth fmtMonthYear now expenses months i data =
     (if i < numCycles then
        cycleLoop fmtMonth fmtMonthYear now expenses months (i + 1)
          (data @ [cycleEntryAt fmtMonth fmtMonthYear now expenses months i])
      else data)"
  by pat_completeness auto
termination
  by (relation "measure (\<lambda>(fmtMonth, fmtMonthYear, now, expenses, months, i, data). numCycles - i)")
     auto

declare cycleLoop.simps [simp del]

definition cycleData ::
  "(jsdate \<Rightarrow> string) \<Rightarrow> (jsdate \<Rightarrow> string) \<Rightarrow> jsdate \<Rightarrow> transaction list \<Rightarrow> int
     \<Rightarrow> cycleEntry list" where
  "cycleData fmtMonth fmtMonthYear now expenses months =
     (if length expenses = 0 \<or> months = 0 then []
      else rev (cycleLoop fmtMonth fmtMonthYear now expenses months 0 []))"

section \<open>Reference quantities and example data\<close>

text \<open>
  What a category has spent, in the words of the specification: the sum of the amounts
  of the given expenses that carry the category's id.
\<close>

definition spentOn :: "transaction list \<Rightarrow> string \<Rightarrow> rat" where
  "spentOn es key = sum_list (map tx_amount (filter (\<lambda>e. tx_categoryId e = key) es))"

text \<open>
  One rendering of the two locale formats, the one of the locale \<^verbatim>\<open>en-US\<close>: \<^verbatim>\<open>Mar\<close> and
  \<^verbatim>\<open>Mar 2024\<close>.
\<close>

function showNat :: "nat \<Rightarrow> string" where
  "showNat n =
     (if n < 10 then [''0123456789'' ! n]
      else showNat (n div 10) @ [''0123456789'' ! (n mod 10)])"
  by pat_completeness auto
termination
  by (relation "measure (\<lambda>n. n)") auto

declare showNat.simps [simp del]

definition enUS_month :: "jsdate \<Rightarrow> string" where
  "enUS_month dt =
     [''Jan'', ''Feb'', ''Mar'', ''Apr'', ''May'', ''Jun'',
      ''Jul'', ''Aug'', ''Sep'', ''Oct'', ''Nov'', ''Dec''] ! nat (getMonth dt mod 12)"

definition enUS_monthYear :: "jsdate \<Rightarrow> string" where
  "enUS_monthYear dt = enUS_month dt @ '' '' @ showNat (nat (getFullYear dt))"

text \<open>The clock at 10:30 on 15 March 2024.\<close>

definition sampleNow :: jsdate where
  "sampleNow = \<lparr>getFullYear = 2024, getMonth = 2, getDate = 15, msOfDay = 37800000\<rparr>"

definition expenseAt :: "string \<Rightarrow> rat \<Rightarrow> string \<Rightarrow> jsdate \<Rightarrow> transaction" where
  "expenseAt i a c ts =
     \<lparr>tx_id = i, tx_amount = a, tx_type = ''expense'', tx_categoryId = c,
      tx_source = ''Unknown'', tx_timestamp = ts\<rparr>"

definition incomeAt :: "string \<Rightarrow> rat \<Rightarrow> jsdate \<Rightarrow> transaction" where
  "incomeAt i a ts =
     \<lparr>tx_id = i, tx_amount = a, tx_type = ''budget'', tx_categoryId = ''income'',
      tx_source = ''Uncategorized Income'', tx_timestamp = ts\<rparr>"

definition groceries :: category where
  "groceries =
     \<lparr>cat_id = ''g1'', cat_name = ''Groceries'', cat_baseLimit = Num 200,
      cat_budgetLimit = Undefined, cat_baseFrequency = Some ''monthly'',
      cat_color = None, cat_icon = None\<rparr>"

text \<open>A category stored before the frequencies were introduced.\<close>

definition legacyRent :: category where
  "legacyRent =
     \<lparr>cat_id = ''r1'', cat_name = ''Rent'', cat_baseLimit = Undefined,
      cat_budgetLimit = Num 500, cat_baseFrequency = None,
      cat_color = None, cat_icon = None\<rparr>"

definition monthlySettings :: settings where
  "monthlySettings = \<lparr>currencyCode = ''USD'', cycleMonths = 1\<rparr>"

text \<open>The clock at 10:30 on 31 March 2024, and an expense logged at noon on 1 March.\<close>

definition march31 :: jsdate where
  "march31 = \<lparr>getFullYear = 2024, getMonth = 2, getDate = 31, msOfDay = 37800000\<rparr>"

definition march1Noon :: jsdate where
  "march1Noon = \<lparr>getFullYear = 2024, getMonth = 2, getDate = 1, msOfDay = 43200000\<rparr>"

section \<open>The summary under rounding arithmetic\<close>

text \<open>
  The numbers of the source are IEEE 754 doubles: every \<^verbatim>\<open>+\<close>, \<^verbatim>\<open>*\<close> and \<^verbatim>\<open>/\<close> rounds its
  result. An \<open>arith\<close> is a choice of the three operations; \<open>exact\<close> is the arithmetic
  of the rationals and \<open>ieee\<close> the one of the doubles. What is proved of the summary for
  every \<open>arith\<close> holds whatever the rounding is.
\<close>

record arith =
  plus_of :: "rat \<Rightarrow> rat \<Rightarrow> rat"
  times_of :: "rat \<Rightarrow> rat \<Rightarrow> rat"
  divide_of :: "rat \<Rightarrow> rat \<Rightarrow> rat"

definition exact :: arith where
  "exact = \<lparr>plus_of = (+), times_of = (*), divide_of = (/)\<rparr>"

text \<open>
  Rounding to the nearest double, ties to the even mantissa: a double that is not \<open>0\<close> is
  a mantissa of 53 bits times a power of two. Subnormal numbers and the overflow to
  \<^verbatim>\<open>Infinity\<close> are outside the model.
\<close>

function bitLength :: "nat \<Rightarrow> nat" where
  "bitLength n = (if n = 0 then 0 else Suc (bitLength (n div 2)))"
  by pat_completeness auto
termination
  by (relation "measure (\<lambda>n. n)") auto

declare bitLength.simps [simp del]

definition pow2 :: "int \<Rightarrow> rat" where
  "pow2 k = (if 0 \<le> k then 2 ^ nat k else 1 / 2 ^ nat (- k))"

text \<open>The exponent \<open>k\<close> with \<open>2 ^ k \<le> a < 2 ^ (k + 1)\<close>, for a positive \<open>a\<close>.\<close>

definition floorLog2 :: "rat \<Rightarrow> int" where
  "floorLog2 a =
     (if 1 \<le> a then int (bitLength (nat \<lfloor>a\<rfloor>)) - 1
      else (let l = int (bitLength (nat \<lfloor>1 / a\<rfloor>)) - 1
            in if pow2 l = 1 / a then - l else - (l + 1)))"

definition roundHalfEven :: "rat \<Rightarrow> int" where
  "roundHalfEven q =
     (let f = \<lfloor>q\<rfloor>; r = q - of_int f
      in if 1 / 2 < r \<or> (r = 1 / 2 \<and> odd f) then f + 1 else f)"

definition roundDouble :: "rat \<Rightarrow> rat" where
  "roundDouble x =
     (if x = 0 then 0
      else (let a = \<bar>x\<bar>; e = floorLog2 a - 52; m = roundHalfEven (a / pow2 e)
            in sgn x * of_int m * pow2 e))"

definition ieee :: arith where
  "ieee =
     \<lparr>plus_of = (\<lambda>x y. roundDouble (x + y)),
      times_of = (\<lambda>x y. roundDouble (x * y)),
      divide_of = (\<lambda>x y. roundDouble (x / y))\<rparr>"

text \<open>
  \<^verbatim>\<open>calculateCycleBudget\<close>, \<^verbatim>\<open>expenseByCategory\<close>, \<^verbatim>\<open>chartData\<close> and the \<^verbatim>\<open>summary\<close> memo
  once more, line by line as above, with the operations of an \<open>arith\<close> where the source
  has \<^verbatim>\<open>+\<close>, \<^verbatim>\<open>*\<close> and \<^verbatim>\<open>/\<close>. The difference \<^verbatim>\<open>totalBudgetLimit - totalExpenses\<close> is the
  sum with the negated total, which rounds alike. The keys of \<^verbatim>\<open>expenseByCategory\<close> are
  category ids, document ids of the store; a key that names a member of
  \<^verbatim>\<open>Object.prototype\<close> is outside the model.
\<close>

definition calculateCycleBudgetIn :: "arith \<Rightarrow> jsval \<Rightarrow> string option \<Rightarrow> int \<Rightarrow> rat" where
  "calculateCycleBudgetIn ar baseLimit baseFrequency months =
     (let limit = orZero (parseFloat baseLimit) in
      if limit \<le> 0 then 0
      else if baseFrequency = Some ''daily'' then
        times_of ar (times_of ar limit (of_int months)) AVG_DAYS_PER_MONTH
      else if baseFrequency = Some ''monthly'' then
        times_of ar limit (of_int months)
      else if baseFrequency = Some ''bimonthly'' then
        times_of ar limit (divide_of ar (of_int months) 2)
      else times_of ar limit (of_int months))"

definition addExpenseIn ::
  "arith \<Rightarrow> (string \<rightharpoonup> rat) \<Rightarrow> transaction \<Rightarrow> (string \<rightharpoonup> rat)" where
  "addExpenseIn ar acc expense =
     (let categoryId = tx_categoryId expense
      in acc(categoryId \<mapsto> plus_of ar (lookupOrZero acc categoryId) (tx_amount expense)))"

definition chartRowIn ::
  "arith \<Rightarrow> (string \<rightharpoonup> rat) \<Rightarrow> int \<Rightarrow> nat \<times> category \<Rightarrow> chartRow" where
  "chartRowIn ar byCategory months ic =
     (case ic of (index, cat) \<Rightarrow>
        (let calculatedLimit =
               calculateCycleBudgetIn ar (cat_baseLimit cat) (cat_baseFrequency cat) months
         in \<lparr>row_name = cat_name cat,
             row_value = lookupOrZero byCategory (cat_id cat),
             row_color = strOr (cat_color cat) (COLORS ! (index mod length COLORS)),
             row_id = cat_id cat,
             row_budgetLimit = calculatedLimit,
             row_baseFrequency = cat_baseFrequency cat,
             row_baseLimit = orZero (parseFloat (cat_baseLimit cat))\<rparr>))"

definition summaryIn ::
  "arith \<Rightarrow> category list \<Rightarrow> transaction list \<Rightarrow> transaction list \<Rightarrow> settings
     \<Rightarrow> summary_rec" where
  "summaryIn ar categories cycExpenses cycBudgets s =
     (let months = cycleMonthsOr1 s;
          totalLimit =
            foldl (\<lambda>sum cat.
                     plus_of ar sum
                       (calculateCycleBudgetIn ar (cat_baseLimit cat) (cat_baseFrequency cat)
                          months))
                  0 categories;
          totalActual = foldl (\<lambda>sum entry. plus_of ar sum (tx_amount entry)) 0 cycBudgets;
          totalExp = foldl (\<lambda>sum entry. plus_of ar sum (tx_amount entry)) 0 cycExpenses;
          remain = plus_of ar totalLimit (- totalExp);
          byCategory = foldl (addExpenseIn ar) Map.empty cycExpenses;
          rows =
            filter (\<lambda>item. 0 < row_value item \<or> 0 < row_budgetLimit item)
                   (map (chartRowIn ar byCategory months) (enumerate 0 categories))
      in \<lparr>totalBudgetLimit = totalLimit, totalActualBudget = totalActual,
          totalExpenses = totalExp, remaining = remain,
          expenseByCategory = byCategory, chartData = rows\<rparr>)"

definition summarizeIn ::
  "arith \<Rightarrow> jsdate \<Rightarrow> category list \<Rightarrow> transaction list \<Rightarrow> settings \<Rightarrow> summary_rec" where
  "summarizeIn ar now categories expenses s =
     summaryIn ar categories (cycleExpenses now s expenses) (cycleBudgets now s expenses) s"

text \<open>The running sum of the amounts of a list of transactions, as the folds compute it.\<close>

definition addUp :: "arith \<Rightarrow> transaction list \<Rightarrow> rat" where
  "addUp ar es = foldl (\<lambda>sum entry. plus_of ar sum (tx_amount entry)) 0 es"

text \<open>
  Two categories with the ids \<^verbatim>\<open>a\<close> and \<^verbatim>\<open>b\<close>, and expenses of 4.08, 7.39 and 16.8, each
  amount the double that \<^verbatim>\<open>parseFloat\<close> reads.
\<close>

definition foodCat :: category where
  "foodCat =
     \<lparr>cat_id = ''a'', cat_name = ''Food'', cat_baseLimit = Num 100,
      cat_budgetLimit = Undefined, cat_baseFrequency = Some ''monthly'',
      cat_color = None, cat_icon = None\<rparr>"

definition fuelCat :: category where
  "fuelCat =
     \<lparr>cat_id = ''b'', cat_name = ''Fuel'', cat_baseLimit = Num 100,
      cat_budgetLimit = Undefined, cat_baseFrequency = Some ''monthly'',
      cat_color = None, cat_icon = None\<rparr>"

definition roundingLog :: "transaction list" where
  "roundingLog =
     [expenseAt ''t1'' (roundDouble (408 / 100)) ''b'' sampleNow,
      expenseAt ''t2'' (roundDouble (739 / 100)) ''a'' sampleNow,
      expenseAt ''t3'' (roundDouble (168 / 10)) ''a'' sampleNow]"

section \<open>Properties of the frequency normalizer\<close>

lemma orZero_parseFloat: "orZero (parseFloat b) = parsedLimit b"
  by (cases b) (simp_all add: orZero_def orElse_def)

lemma calculateCycleBudget_cycleAmount:
  "calculateCycleBudget b f c = cycleAmount b f c"
  by (cases f)
     (simp_all add: calculateCycleBudget_def cycleAmount_def cycleMultiplier_def
        orZero_parseFloat AVG_DAYS_PER_MONTH_def Let_def)

lemma calculateCycleBudget_nonneg:
  "0 \<le> c \<Longrightarrow> 0 \<le> calculateCycleBudget b f c"
  by (simp add: calculateCycleBudget_def Let_def AVG_DAYS_PER_MONTH_def)

text \<open>
  Claim C1, as the code has it. For every base limit, frequency and cycle length,
  \<open>calculateCycleBudget\<close> equals the piecewise reference definition \<open>cycleAmount\<close>:
  \<open>0\<close> when the parsed base limit is not positive (a \<^verbatim>\<open>NaN\<close> or absent limit counting
  as \<open>0\<close>), the limit times the cycle length for \<^verbatim>\<open>monthly\<close>, times half the cycle
  length for \<^verbatim>\<open>bimonthly\<close>, times the cycle length and 30.4375 for \<^verbatim>\<open>daily\<close>, and the
  monthly formula for an unknown or unset frequency. The function is total, and its
  result is not negative when the cycle length is not negative.
\<close>

theorem calculateCycleBudget_piecewise:
  "calculateCycleBudget b f c = cycleAmount b f c \<and>
   (0 \<le> c \<longrightarrow> 0 \<le> calculateCycleBudget b f c)"
proof
  show "calculateCycleBudget b f c = cycleAmount b f c"
    by (rule calculateCycleBudget_cycleAmount)
  show "0 \<le> c \<longrightarrow> 0 \<le> calculateCycleBudget b f c"
    by (simp add: calculateCycleBudget_nonneg)
qed

theorem calculateCycleBudget_piecewise_witness:
  "calculateCycleBudget (Num 100) (Some ''daily'') 2 = cycleAmount (Num 100) (Some ''daily'') 2 \<and>
   (0::int) \<le> 2 \<and> 0 \<le> calculateCycleBudget (Num 100) (Some ''daily'') 2 \<and>
   cycleAmount (Num 100) (Some ''daily'') 2 = 12175 / 2"
  using calculateCycleBudget_piecewise [of "Num 100" "Some ''daily''" 2]
  by (simp add: cycleAmount_def cycleMultiplier_def)

text \<open>
  The claim as it is written also says that the result is never negative, for every
  cycle length. A negative cycle length with a positive limit gives a negative result.
\<close>

theorem calculateCycleBudget_negative_counterexample:
  "calculateCycleBudget (Num 100) (Some ''monthly'') (- 1) < 0"
  by (simp add: calculateCycleBudget_def orZero_def orElse_def)

section \<open>Properties of the date model\<close>

lemma daysInMonth_ge: "28 \<le> daysInMonth y m"
  by (simp add: daysInMonth_def)

lemma daysInMonth_le: "daysInMonth y m \<le> 31"
  by (simp add: daysInMonth_def)

lemma normDay_in_range:
  "1 \<le> d \<Longrightarrow> d \<le> daysInMonth y m \<Longrightarrow> normDay y m d = (y, m, d)"
  by (subst normDay.simps) simp

lemma normDay_first: "normDay y m 1 = (y, m, 1)"
  using daysInMonth_ge [of y m] by (intro normDay_in_range) simp_all

lemma normDay_overflow:
  assumes "1 \<le> d" "d \<le> 31" "daysInMonth y m < d"
  shows "normDay y m d =
           (fst (nextMonth (y, m)), snd (nextMonth (y, m)), d - daysInMonth y m)"
proof -
  obtain y' m' where nm: "nextMonth (y, m) = (y', m')" by (cases "nextMonth (y, m)")
  have "d - daysInMonth y m \<le> daysInMonth y' m'"
    using assms daysInMonth_ge [of y m] daysInMonth_ge [of y' m'] by linarith
  moreover have "1 \<le> d - daysInMonth y m" using assms by simp
  ultimately have "normDay y' m' (d - daysInMonth y m) = (y', m', d - daysInMonth y m)"
    by (rule normDay_in_range [rotated])
  then show ?thesis using assms nm by (subst normDay.simps) simp
qed

lemma makeDay_first: "makeDay y m 1 = (y + m div 12, m mod 12, 1)"
  by (simp add: makeDay_def normDay_first)

lemma stepBackMonth_fields:
  assumes "0 \<le> m" "m < 12"
  shows "stepBackMonth \<lparr>getFullYear = y, getMonth = m, getDate = d, msOfDay = t\<rparr> =
         \<lparr>getFullYear = y + (m - 1) div 12, getMonth = (m - 1) mod 12, getDate = d, msOfDay = t\<rparr>"
proof (cases "m = 0")
  case True
  then show ?thesis by (simp add: stepBackMonth_def)
next
  case False
  with assms have "(m - 1) div 12 = 0" "(m - 1) mod 12 = m - 1" by simp_all
  with False show ?thesis by (simp add: stepBackMonth_def)
qed

lemma monthsBack_fields:
  assumes "0 \<le> m" "m < 12"
  shows "monthsBack k \<lparr>getFullYear = y, getMonth = m, getDate = d, msOfDay = t\<rparr> =
         \<lparr>getFullYear = y + (m - int k) div 12, getMonth = (m - int k) mod 12,
          getDate = d, msOfDay = t\<rparr>"
proof (induction k)
  case 0
  with assms show ?case by (simp add: monthsBack_def)
next
  case (Suc k)
  let ?q = "(m - int k) div 12" and ?r = "(m - int k) mod 12"
  have r: "0 \<le> ?r" "?r < 12" by simp_all
  have eq: "m - int (Suc k) = 12 * ?q + (?r - 1)"
    by (simp add: algebra_simps)
  have d1: "(m - int (Suc k)) div 12 = ?q + (?r - 1) div 12"
    unfolding eq by simp
  have d2: "(m - int (Suc k)) mod 12 = (?r - 1) mod 12"
    unfolding eq by simp
  have "monthsBack (Suc k) \<lparr>getFullYear = y, getMonth = m, getDate = d, msOfDay = t\<rparr> =
        stepBackMonth (monthsBack k \<lparr>getFullYear = y, getMonth = m, getDate = d, msOfDay = t\<rparr>)"
    by (simp add: monthsBack_def)
  also have "\<dots> = stepBackMonth \<lparr>getFullYear = y + ?q, getMonth = ?r, getDate = d, msOfDay = t\<rparr>"
    by (simp only: Suc.IH)
  also have "\<dots> = \<lparr>getFullYear = y + ?q + (?r - 1) div 12, getMonth = (?r - 1) mod 12,
                     getDate = d, msOfDay = t\<rparr>"
    by (rule stepBackMonth_fields [OF r])
  finally show ?case by (simp only: d1 d2 add.assoc)
qed

lemma newDate_first:
  assumes "clockDate now"
  shows "newDate (getFullYear now) (getMonth now) 1 =
         \<lparr>getFullYear = getFullYear now, getMonth = getMonth now, getDate = 1, msOfDay = 0\<rparr>"
  using assms by (simp add: newDate_def makeDay_first clockDate_def validDate_def)

lemma setMonth_first:
  "setMonth \<lparr>getFullYear = y, getMonth = m, getDate = 1, msOfDay = t\<rparr> k =
   \<lparr>getFullYear = y + k div 12, getMonth = k mod 12, getDate = 1, msOfDay = t\<rparr>"
  by (simp add: setMonth_def makeDay_first)

lemma truncateToMonth_fields:
  "truncateToMonth now =
   \<lparr>getFullYear = getFullYear now, getMonth = getMonth now, getDate = 1, msOfDay = 0\<rparr>"
  by (simp add: truncateToMonth_def)

lemma startOfCycle_fields:
  assumes "clockDate now"
  shows "startOfCycle now c =
         \<lparr>getFullYear = getFullYear now + (getMonth now - (c - 1)) div 12,
          getMonth = (getMonth now - (c - 1)) mod 12, getDate = 1, msOfDay = 0\<rparr>"
  by (simp add: startOfCycle_def Let_def newDate_first [OF assms] setMonth_first
      setDate_def makeDay_first)

section \<open>The start of the current cycle\<close>

text \<open>
  Claim C3. For every reading \<open>now\<close> of the clock and every cycle length of at least one
  month, \<open>startOfCycle\<close> is the first day of the month of \<open>now\<close> at midnight, stepped
  back by \<open>cycleMonths - 1\<close> whole calendar months. In particular it is the 1st of a
  month (a month from 0 to 11), at midnight.
\<close>

theorem startOfCycle_first_of_month:
  assumes "clockDate now" and "1 \<le> c"
  shows "startOfCycle now c = monthsBack (nat (c - 1)) (truncateToMonth now) \<and>
         getDate (startOfCycle now c) = 1 \<and> msOfDay (startOfCycle now c) = 0 \<and>
         0 \<le> getMonth (startOfCycle now c) \<and> getMonth (startOfCycle now c) < 12"
proof -
  have m: "0 \<le> getMonth now" "getMonth now < 12"
    using assms(1) by (simp_all add: clockDate_def validDate_def)
  have "startOfCycle now c = monthsBack (nat (c - 1)) (truncateToMonth now)"
    using assms(2)
    by (simp add: startOfCycle_fields [OF assms(1)] truncateToMonth_fields
        monthsBack_fields [OF m])
  moreover have "getDate (startOfCycle now c) = 1 \<and> msOfDay (startOfCycle now c) = 0 \<and>
         0 \<le> getMonth (startOfCycle now c) \<and> getMonth (startOfCycle now c) < 12"
    by (simp add: startOfCycle_fields [OF assms(1)])
  ultimately show ?thesis by (rule conjI)
qed

theorem startOfCycle_first_of_month_witness:
  "clockDate \<lparr>getFullYear = 2024, getMonth = 0, getDate = 15, msOfDay = 37800000\<rparr> \<and>
   (1::int) \<le> 3 \<and>
   startOfCycle \<lparr>getFullYear = 2024, getMonth = 0, getDate = 15, msOfDay = 37800000\<rparr> 3 =
     \<lparr>getFullYear = 2023, getMonth = 10, getDate = 1, msOfDay = 0\<rparr>"
proof -
  let ?now = "\<lparr>getFullYear = 2024, getMonth = 0, getDate = 15, msOfDay = 37800000\<rparr>"
  have h: "clockDate ?now"
    by (simp add: clockDate_def validDate_def daysInMonth_def)
  have "monthsBack (nat (3 - 1)) (truncateToMonth ?now) =
        \<lparr>getFullYear = 2023, getMonth = 10, getDate = 1, msOfDay = 0\<rparr>"
    by (simp add: monthsBack_def truncateToMonth_def stepBackMonth_def numeral_2_eq_2)
  with startOfCycle_first_of_month [OF h, of 3] h show ?thesis by simp
qed

section \<open>Properties of folds and lookups\<close>

lemma foldl_add_sum_list:
  "foldl (\<lambda>s x. s + f x) a xs = a + sum_list (map f xs)" for a :: rat
  by (induction xs arbitrary: a) (simp_all add: add.assoc)

lemma lookupOrZero_foldl_addExpense:
  "lookupOrZero (foldl addExpense acc es) key = lookupOrZero acc key + spentOn es key"
proof (induction es arbitrary: acc)
  case Nil
  show ?case by (simp add: spentOn_def)
next
  case (Cons e es)
  have "lookupOrZero (addExpense acc e) key =
        lookupOrZero acc key + (if tx_categoryId e = key then tx_amount e else 0)"
    by (simp add: addExpense_def lookupOrZero_def Let_def)
  with Cons.IH [of "addExpense acc e"] show ?case
    by (simp add: spentOn_def)
qed

lemma lookupOrZero_empty: "lookupOrZero Map.empty key = 0"
  by (simp add: lookupOrZero_def)

section \<open>The loop of the comparison builder\<close>

lemma cycleLoop_map:
  "i \<le> numCycles \<Longrightarrow>
   cycleLoop fm fmy now xs c i data = data @ map (cycleEntryAt fm fmy now xs c) [i..<numCycles]"
proof (induction fm fmy now xs c i data rule: cycleLoop.induct)
  case (1 fm fmy now xs c i data)
  show ?case
  proof (cases "i < numCycles")
    case True
    then have "cycleLoop fm fmy now xs c i data =
               cycleLoop fm fmy now xs c (i + 1) (data @ [cycleEntryAt fm fmy now xs c i])"
      by (subst cycleLoop.simps) simp
    also have "\<dots> = (data @ [cycleEntryAt fm fmy now xs c i]) @
                     map (cycleEntryAt fm fmy now xs c) [i + 1..<numCycles]"
      using True by (intro "1.IH") simp_all
    also have "\<dots> = data @ map (cycleEntryAt fm fmy now xs c) [i..<numCycles]"
      using True by (simp add: upt_conv_Cons)
    finally show ?thesis .
  next
    case False
    with "1.prems" have "i = numCycles" by simp
    then show ?thesis by (subst cycleLoop.simps) simp
  qed
qed

lemma cycleData_degenerate:
  "xs = [] \<or> c = 0 \<Longrightarrow> cycleData fm fmy now xs c = []"
  by (auto simp: cycleData_def)

lemma cycleData_entries:
  assumes "xs \<noteq> []" "c \<noteq> 0"
  shows "cycleData fm fmy now xs c = rev (map (cycleEntryAt fm fmy now xs c) [0..<numCycles])"
  using assms by (simp add: cycleData_def cycleLoop_map)

section \<open>Properties of the ledger view and the summary\<close>

lemma filterData_filter:
  "filterData (filter P xs) start =
   filter (\<lambda>t. P t \<and> valueOf start \<le> valueOf (tx_timestamp t)) xs"
  by (simp add: filterData_def conj_commute)

lemma summary_totals:
  "totalBudgetLimit (summary cats es bs s) =
     sum_list (map (\<lambda>cat. calculateCycleBudget (cat_baseLimit cat) (cat_baseFrequency cat)
                              (cycleMonthsOr1 s)) cats)"
  "totalActualBudget (summary cats es bs s) = sum_list (map tx_amount bs)"
  "totalExpenses (summary cats es bs s) = sum_list (map tx_amount es)"
  "remaining (summary cats es bs s) =
     totalBudgetLimit (summary cats es bs s) - totalExpenses (summary cats es bs s)"
  "expenseByCategory (summary cats es bs s) = foldl addExpense Map.empty es"
  by (simp_all add: summary_def Let_def foldl_add_sum_list)

lemma currentStart_le_now:
  assumes "clockDate now"
  shows "valueOf (startOfCycle now 1) \<le> valueOf now"
proof -
  have m: "0 \<le> getMonth now" "getMonth now < 12" "1 \<le> getDate now" "0 \<le> msOfDay now"
    using assms by (simp_all add: clockDate_def validDate_def)
  then have "startOfCycle now 1 =
        \<lparr>getFullYear = getFullYear now, getMonth = getMonth now, getDate = 1, msOfDay = 0\<rparr>"
    by (simp add: startOfCycle_fields [OF assms])
  with m show ?thesis by (simp add: valueOf_def dayNumber_def)
qed

lemma clockDate_sampleNow: "clockDate sampleNow"
  by (simp add: clockDate_def validDate_def sampleNow_def daysInMonth_def)

lemma startOfCycle_sampleNow:
  "startOfCycle sampleNow 1 =
   \<lparr>getFullYear = 2024, getMonth = 2, getDate = 1, msOfDay = 0\<rparr>"
  by (simp add: startOfCycle_fields [OF clockDate_sampleNow]) (simp add: sampleNow_def)

lemma valueOf_sampleNow: "valueOf sampleNow = 1710498600000"
  by (simp add: valueOf_def dayNumber_def dayFromYear_def daysInMonth_def isLeapYear_def
      sampleNow_def upto.simps)

text \<open>
  Claim C6. The selection of the current cycle keeps exactly the transactions whose
  timestamp is at or after the start of the cycle, in the order of the log; no upper
  bound is applied, so a transaction dated in the future is kept. This holds for the
  expense partition and for the income (\<^verbatim>\<open>budget\<close>) partition that feed the summary.
\<close>

theorem current_cycle_selection:
  "filterData xs start = filter (\<lambda>t. valueOf start \<le> valueOf (tx_timestamp t)) xs \<and>
   cycleExpenses now s xs =
     filter (\<lambda>t. tx_type t = ''expense'' \<and>
                  valueOf (currentCycleStart now s) \<le> valueOf (tx_timestamp t)) xs \<and>
   cycleBudgets now s xs =
     filter (\<lambda>t. tx_type t = ''budget'' \<and>
                  valueOf (currentCycleStart now s) \<le> valueOf (tx_timestamp t)) xs"
  by (simp add: cycleExpenses_def cycleBudgets_def filterData_filter) (simp add: filterData_def)

text \<open>
  At 15 March 2024 with a cycle of one month: an expense of today and one dated in the
  year 2999 are kept, an expense of 20 February is dropped, and an income entry of the
  year 2999 is kept in the income partition.
\<close>

theorem current_cycle_selection_witness:
  "cycleExpenses sampleNow monthlySettings
     [expenseAt ''t1'' 50 ''g1'' sampleNow,
      expenseAt ''t2'' 20 ''g1''
        \<lparr>getFullYear = 2024, getMonth = 1, getDate = 20, msOfDay = 0\<rparr>,
      incomeAt ''t3'' 1000 \<lparr>getFullYear = 2999, getMonth = 0, getDate = 1, msOfDay = 0\<rparr>,
      expenseAt ''t4'' 5 ''g1'' \<lparr>getFullYear = 2999, getMonth = 0, getDate = 1, msOfDay = 0\<rparr>] =
     [expenseAt ''t1'' 50 ''g1'' sampleNow,
      expenseAt ''t4'' 5 ''g1'' \<lparr>getFullYear = 2999, getMonth = 0, getDate = 1, msOfDay = 0\<rparr>] \<and>
   cycleBudgets sampleNow monthlySettings
     [expenseAt ''t1'' 50 ''g1'' sampleNow,
      expenseAt ''t2'' 20 ''g1''
        \<lparr>getFullYear = 2024, getMonth = 1, getDate = 20, msOfDay = 0\<rparr>,
      incomeAt ''t3'' 1000 \<lparr>getFullYear = 2999, getMonth = 0, getDate = 1, msOfDay = 0\<rparr>,
      expenseAt ''t4'' 5 ''g1'' \<lparr>getFullYear = 2999, getMonth = 0, getDate = 1, msOfDay = 0\<rparr>] =
     [incomeAt ''t3'' 1000 \<lparr>getFullYear = 2999, getMonth = 0, getDate = 1, msOfDay = 0\<rparr>]"
proof -
  have start: "currentCycleStart sampleNow monthlySettings =
        \<lparr>getFullYear = 2024, getMonth = 2, getDate = 1, msOfDay = 0\<rparr>"
    by (simp add: currentCycleStart_def cycleMonthsOr1_def monthlySettings_def
        startOfCycle_sampleNow)
  have v: "valueOf \<lparr>getFullYear = 2024, getMonth = 2, getDate = 1, msOfDay = 0\<rparr> = 1709251200000"
    "valueOf \<lparr>getFullYear = 2024, getMonth = 1, getDate = 20, msOfDay = 0\<rparr> = 1708387200000"
    "valueOf \<lparr>getFullYear = 2999, getMonth = 0, getDate = 1, msOfDay = 0\<rparr> = 32472144000000"
    by (simp_all add: valueOf_def dayNumber_def dayFromYear_def daysInMonth_def isLeapYear_def
        upto.simps)
  show ?thesis
    by (simp add: current_cycle_selection start v valueOf_sampleNow expenseAt_def incomeAt_def)
qed



text \<open>
  Claim C9. The normalization of a loaded category takes the deprecated \<^verbatim>\<open>budgetLimit\<close>
  for \<^verbatim>\<open>baseLimit\<close> when \<^verbatim>\<open>baseLimit\<close> is absent or not a number, gives \<open>0\<close> when both
  are missing or non-numeric, keeps a non-zero numeric \<^verbatim>\<open>baseLimit\<close>, and puts
  \<^verbatim>\<open>monthly\<close> for a missing \<^verbatim>\<open>baseFrequency\<close> while a frequency that is present stays.
  (A \<^verbatim>\<open>baseLimit\<close> of \<open>0\<close> is falsy as well, so it also gives way to \<^verbatim>\<open>budgetLimit\<close>.)
\<close>

theorem sanitizeCat_fallbacks:
  "(parseFloat (cat_baseLimit cat) = NaN \<and> cat_budgetLimit cat = Num q \<longrightarrow>
      cat_baseLimit (sanitizeCat cat) = Num q) \<and>
   (parseFloat (cat_baseLimit cat) = NaN \<and> parseFloat (cat_budgetLimit cat) = NaN \<longrightarrow>
      cat_baseLimit (sanitizeCat cat) = Num 0) \<and>
   (cat_baseLimit cat = Num q \<and> q \<noteq> 0 \<longrightarrow> cat_baseLimit (sanitizeCat cat) = Num q) \<and>
   (cat_baseFrequency cat = None \<longrightarrow> cat_baseFrequency (sanitizeCat cat) = Some ''monthly'') \<and>
   (cat_baseFrequency cat = Some f \<and> f \<noteq> [] \<longrightarrow> cat_baseFrequency (sanitizeCat cat) = Some f) \<and>
   sanitizedCats cats = map sanitizeCat cats"
  by (simp add: sanitizeCat_def sanitizedCats_def orZero_def orElse_def strOr_def)

theorem sanitizeCat_fallbacks_witness:
  "parseFloat (cat_baseLimit legacyRent) = NaN \<and> cat_budgetLimit legacyRent = Num 500 \<and>
   cat_baseFrequency legacyRent = None \<and>
   cat_baseLimit (sanitizeCat legacyRent) = Num 500 \<and>
   cat_baseFrequency (sanitizeCat legacyRent) = Some ''monthly'' \<and>
   parseFloat (cat_baseLimit (legacyRent\<lparr>cat_budgetLimit := NaN\<rparr>)) = NaN \<and>
   parseFloat (cat_budgetLimit (legacyRent\<lparr>cat_budgetLimit := NaN\<rparr>)) = NaN \<and>
   cat_baseLimit (sanitizeCat (legacyRent\<lparr>cat_budgetLimit := NaN\<rparr>)) = Num 0 \<and>
   cat_baseLimit groceries = Num 200 \<and> cat_baseFrequency groceries = Some ''monthly'' \<and>
   cat_baseLimit (sanitizeCat groceries) = Num 200 \<and>
   cat_baseFrequency (sanitizeCat groceries) = Some ''monthly''"
proof -
  have h: "parseFloat (cat_baseLimit legacyRent) = NaN" "cat_budgetLimit legacyRent = Num 500"
    "cat_baseFrequency legacyRent = None"
    "parseFloat (cat_baseLimit (legacyRent\<lparr>cat_budgetLimit := NaN\<rparr>)) = NaN"
    "parseFloat (cat_budgetLimit (legacyRent\<lparr>cat_budgetLimit := NaN\<rparr>)) = NaN"
    "cat_baseLimit groceries = Num 200" "cat_baseFrequency groceries = Some ''monthly''"
    by (simp_all add: legacyRent_def groceries_def)
  from h sanitizeCat_fallbacks [of legacyRent 500]
    sanitizeCat_fallbacks [of "legacyRent\<lparr>cat_budgetLimit := NaN\<rparr>"]
    sanitizeCat_fallbacks [of groceries 200 "''monthly''"]
  show ?thesis by simp
qed

section \<open>The degenerate cases of the comparison builder\<close>

text \<open>
  Claim C4, as the code has it. The cycle-comparison series is the empty sequence
  whenever the transaction list is empty or the cycle length is \<open>0\<close>, and it is a
  sequence of five entries in every other case; the function is total, it raises no
  error.
\<close>

theorem cycleData_empty_cases:
  "(expenses = [] \<or> months = 0 \<longrightarrow> cycleData fm fmy now expenses months = []) \<and>
   (expenses \<noteq> [] \<and> months \<noteq> 0 \<longrightarrow> length (cycleData fm fmy now expenses months) = 5)"
  by (simp add: cycleData_degenerate cycleData_entries numCycles_def)

theorem cycleData_empty_cases_witness:
  "cycleData enUS_month enUS_monthYear sampleNow [] (- 1) = [] \<and>
   cycleData enUS_month enUS_monthYear sampleNow [expenseAt ''t1'' 50 ''g1'' sampleNow] 0 = [] \<and>
   length (cycleData enUS_month enUS_monthYear sampleNow [expenseAt ''t1'' 50 ''g1'' sampleNow] 1) = 5"
  using cycleData_empty_cases [of "[]" "- 1" enUS_month enUS_monthYear sampleNow]
    cycleData_empty_cases
      [of "[expenseAt ''t1'' 50 ''g1'' sampleNow]" 0 enUS_month enUS_monthYear sampleNow]
    cycleData_empty_cases
      [of "[expenseAt ''t1'' 50 ''g1'' sampleNow]" 1 enUS_month enUS_monthYear sampleNow]
  by simp

text \<open>
  The claim as it is written asks for the empty sequence at every cycle length that is
  \<open>0\<close> or less. The guard of the code tests \<^verbatim>\<open>cycleMonths === 0\<close> only: with a negative
  cycle length and one transaction the series is not empty.
\<close>

theorem cycleData_negative_counterexample:
  "cycleData enUS_month enUS_monthYear sampleNow [expenseAt ''t1'' 50 ''g1'' sampleNow] (- 1) \<noteq> []"
proof -
  have "length (cycleData enUS_month enUS_monthYear sampleNow
          [expenseAt ''t1'' 50 ''g1'' sampleNow] (- 1)) = 5"
    by (simp add: cycleData_entries numCycles_def)
  then show ?thesis by auto
qed

section \<open>Properties of the per-category rows\<close>

lemma map_filter_enumerate:
  assumes "\<And>i x. g (f (i, x)) = h x" and "\<And>i x. P (f (i, x)) = K x"
  shows "map g (filter P (map f (enumerate n xs))) = map h (filter K xs)"
  using assms by (induction xs arbitrary: n) simp_all

lemma expenseByCategory_spentOn:
  "lookupOrZero (expenseByCategory (summary cats es bs s)) key = spentOn es key"
  by (simp add: summary_totals lookupOrZero_foldl_addExpense lookupOrZero_empty)

lemma chartData_unfold:
  "chartData (summary cats es bs s) =
     filter (\<lambda>item. 0 < row_value item \<or> 0 < row_budgetLimit item)
       (map (chartRowOf (foldl addExpense Map.empty es) (cycleMonthsOr1 s)) (enumerate 0 cats))"
  by (simp add: summary_def Let_def)

lemma chartRowOf_fields:
  "row_id (chartRowOf (foldl addExpense Map.empty es) c (i, cat)) = cat_id cat"
  "row_name (chartRowOf (foldl addExpense Map.empty es) c (i, cat)) = cat_name cat"
  "row_value (chartRowOf (foldl addExpense Map.empty es) c (i, cat)) = spentOn es (cat_id cat)"
  "row_budgetLimit (chartRowOf (foldl addExpense Map.empty es) c (i, cat)) =
     calculateCycleBudget (cat_baseLimit cat) (cat_baseFrequency cat) c"
  by (simp_all add: chartRowOf_def Let_def lookupOrZero_foldl_addExpense lookupOrZero_empty)

lemma cycleExpenses_append:
  "cycleExpenses now s (xs @ ys) = cycleExpenses now s xs @ cycleExpenses now s ys"
  by (simp add: cycleExpenses_def filterData_def)

lemma cycleExpenses_insert:
  assumes "tx_type e = ''expense''"
    and "valueOf (currentCycleStart now s) \<le> valueOf (tx_timestamp e)"
  shows "cycleExpenses now s (xs @ e # ys) =
         cycleExpenses now s xs @ e # cycleExpenses now s ys"
  using assms by (simp add: cycleExpenses_def filterData_def)

lemma currentCycleStart_monthly:
  "currentCycleStart sampleNow monthlySettings = startOfCycle sampleNow 1"
  by (simp add: currentCycleStart_def cycleMonthsOr1_def monthlySettings_def)

section \<open>The totals of the summary\<close>

text \<open>
  Claim C2, as the code has it. For every list of categories, every transaction log and
  every settings record, the summary has \<open>totalBudgetLimit\<close> equal to the sum over all
  categories of \<open>cycleAmount\<close> of the category's base limit and frequency at the cycle
  length \<^verbatim>\<open>settings.cycleMonths || 1\<close> (the cycle length of the settings, and \<open>1\<close> when
  that is \<open>0\<close>), \<open>totalExpenses\<close> equal to the sum of the amounts of the expense-type
  transactions at or after the start of the current cycle, and \<open>remaining\<close> equal to
  their difference. In particular, one category with a monthly base limit of 200, a
  cycle of one month and two expenses of 50 and 30 dated \<open>now\<close> give 200, 80 and 120.
\<close>

theorem summarize_totals:
  "totalBudgetLimit (summarize now cats xs s) =
     sum_list (map (\<lambda>cat. cycleAmount (cat_baseLimit cat) (cat_baseFrequency cat)
                              (cycleMonthsOr1 s)) cats) \<and>
   totalExpenses (summarize now cats xs s) =
     sum_list (map tx_amount
       (filter (\<lambda>t. tx_type t = ''expense'' \<and>
                    valueOf (startOfCycle now (cycleMonthsOr1 s)) \<le> valueOf (tx_timestamp t)) xs)) \<and>
   remaining (summarize now cats xs s) =
     totalBudgetLimit (summarize now cats xs s) - totalExpenses (summarize now cats xs s) \<and>
   (cycleMonths s \<noteq> 0 \<longrightarrow> cycleMonthsOr1 s = cycleMonths s) \<and>
   (cycleMonths s = 0 \<longrightarrow> cycleMonthsOr1 s = 1) \<and>
   (clockDate now \<and> cycleMonths s = 1 \<and>
    cat_baseLimit cat = Num 200 \<and> cat_baseFrequency cat = Some ''monthly'' \<and>
    tx_type e1 = ''expense'' \<and> tx_amount e1 = 50 \<and> tx_timestamp e1 = now \<and>
    tx_type e2 = ''expense'' \<and> tx_amount e2 = 30 \<and> tx_timestamp e2 = now \<longrightarrow>
      totalBudgetLimit (summarize now [cat] [e1, e2] s) = 200 \<and>
      totalExpenses (summarize now [cat] [e1, e2] s) = 80 \<and>
      remaining (summarize now [cat] [e1, e2] s) = 120)"
proof (intro conjI impI)
  show "totalBudgetLimit (summarize now cats xs s) =
      sum_list (map (\<lambda>cat. cycleAmount (cat_baseLimit cat) (cat_baseFrequency cat)
                               (cycleMonthsOr1 s)) cats)"
    by (simp add: summarize_def summary_totals calculateCycleBudget_cycleAmount)
  show "totalExpenses (summarize now cats xs s) =
      sum_list (map tx_amount
        (filter (\<lambda>t. tx_type t = ''expense'' \<and>
                     valueOf (startOfCycle now (cycleMonthsOr1 s)) \<le> valueOf (tx_timestamp t)) xs))"
    by (simp add: summarize_def summary_totals cycleExpenses_def filterData_filter
        currentCycleStart_def)
  show "remaining (summarize now cats xs s) =
      totalBudgetLimit (summarize now cats xs s) - totalExpenses (summarize now cats xs s)"
    by (simp add: summarize_def summary_totals)
  show "cycleMonths s \<noteq> 0 \<Longrightarrow> cycleMonthsOr1 s = cycleMonths s"
    by (simp add: cycleMonthsOr1_def)
  show "cycleMonths s = 0 \<Longrightarrow> cycleMonthsOr1 s = 1"
    by (simp add: cycleMonthsOr1_def)
next
  assume h: "clockDate now \<and> cycleMonths s = 1 \<and>
     cat_baseLimit cat = Num 200 \<and> cat_baseFrequency cat = Some ''monthly'' \<and>
     tx_type e1 = ''expense'' \<and> tx_amount e1 = 50 \<and> tx_timestamp e1 = now \<and>
     tx_type e2 = ''expense'' \<and> tx_amount e2 = 30 \<and> tx_timestamp e2 = now"
  then have le: "valueOf (startOfCycle now 1) \<le> valueOf now"
    by (simp add: currentStart_le_now)
  have lim: "calculateCycleBudget (Num 200) (Some ''monthly'') 1 = 200"
    by (simp add: calculateCycleBudget_def orZero_def orElse_def)
  have c1: "cycleMonthsOr1 s = 1" using h by (simp add: cycleMonthsOr1_def)
  show "totalBudgetLimit (summarize now [cat] [e1, e2] s) = 200"
    using h by (simp add: summarize_def summary_totals c1 lim)
  show "totalExpenses (summarize now [cat] [e1, e2] s) = 80"
    using h le by (simp add: summarize_def summary_totals cycleExpenses_def filterData_def
        currentCycleStart_def c1)
  show "remaining (summarize now [cat] [e1, e2] s) = 120"
    using h le by (simp add: summarize_def summary_totals cycleExpenses_def filterData_def
        currentCycleStart_def c1 lim)
qed

theorem summarize_totals_witness:
  "clockDate sampleNow \<and> cycleMonths monthlySettings = 1 \<and>
   cat_baseLimit groceries = Num 200 \<and> cat_baseFrequency groceries = Some ''monthly'' \<and>
   totalBudgetLimit
     (summarize sampleNow [groceries]
        [expenseAt ''t1'' 50 ''g1'' sampleNow, expenseAt ''t2'' 30 ''g1'' sampleNow]
        monthlySettings) = 200 \<and>
   totalExpenses
     (summarize sampleNow [groceries]
        [expenseAt ''t1'' 50 ''g1'' sampleNow, expenseAt ''t2'' 30 ''g1'' sampleNow]
        monthlySettings) = 80 \<and>
   remaining
     (summarize sampleNow [groceries]
        [expenseAt ''t1'' 50 ''g1'' sampleNow, expenseAt ''t2'' 30 ''g1'' sampleNow]
        monthlySettings) = 120"
proof -
  have h: "clockDate sampleNow \<and> cycleMonths monthlySettings = 1 \<and>
    cat_baseLimit groceries = Num 200 \<and> cat_baseFrequency groceries = Some ''monthly'' \<and>
    tx_type (expenseAt ''t1'' 50 ''g1'' sampleNow) = ''expense'' \<and>
    tx_amount (expenseAt ''t1'' 50 ''g1'' sampleNow) = 50 \<and>
    tx_timestamp (expenseAt ''t1'' 50 ''g1'' sampleNow) = sampleNow \<and>
    tx_type (expenseAt ''t2'' 30 ''g1'' sampleNow) = ''expense'' \<and>
    tx_amount (expenseAt ''t2'' 30 ''g1'' sampleNow) = 30 \<and>
    tx_timestamp (expenseAt ''t2'' 30 ''g1'' sampleNow) = sampleNow"
    by (simp add: clockDate_sampleNow monthlySettings_def groceries_def expenseAt_def)
  from h summarize_totals
    [of sampleNow "[]" "[]" monthlySettings groceries "expenseAt ''t1'' 50 ''g1'' sampleNow"
      "expenseAt ''t2'' 30 ''g1'' sampleNow"]
  show ?thesis by blast
qed

text \<open>
  The claim as it is written takes the cycle length of the settings as it is. At a cycle
  length of \<open>0\<close> the code computes with \<open>1\<close>: the total limit of the one category is 200,
  while \<open>cycleAmount\<close> at the cycle length \<open>0\<close> is \<open>0\<close>.
\<close>

theorem summarize_zero_cycle_counterexample:
  "totalBudgetLimit
     (summarize sampleNow [groceries] [] \<lparr>currencyCode = ''USD'', cycleMonths = 0\<rparr>) = 200 \<and>
   cycleAmount (cat_baseLimit groceries) (cat_baseFrequency groceries) 0 = 0"
  by (simp add: summarize_def summary_totals cycleMonthsOr1_def groceries_def
      calculateCycleBudget_def orZero_def orElse_def cycleAmount_def cycleMultiplier_def)

section \<open>The per-category rows\<close>

text \<open>
  Claim C8. The per-category rows of the summary are, in the order of the categories,
  exactly the categories whose spending in the current cycle is positive or whose
  computed cycle limit is positive; a category with neither is dropped. Each row
  carries the category's id and name, its spending and its cycle limit, and its
  percentage is the spending divided by the cycle limit times 100 when the limit is
  positive, and \<open>0\<close> otherwise.
\<close>

theorem chartData_rows:
  "map (\<lambda>r. (row_id r, row_name r, row_value r, row_budgetLimit r, percentage r))
       (chartData (summarize now cats xs s)) =
   map (\<lambda>cat. (cat_id cat, cat_name cat,
                spentOn (cycleExpenses now s xs) (cat_id cat),
                calculateCycleBudget (cat_baseLimit cat) (cat_baseFrequency cat) (cycleMonthsOr1 s),
                if 0 < calculateCycleBudget (cat_baseLimit cat) (cat_baseFrequency cat)
                         (cycleMonthsOr1 s)
                then spentOn (cycleExpenses now s xs) (cat_id cat) /
                     calculateCycleBudget (cat_baseLimit cat) (cat_baseFrequency cat)
                       (cycleMonthsOr1 s) * 100
                else 0))
       (filter (\<lambda>cat. 0 < spentOn (cycleExpenses now s xs) (cat_id cat) \<or>
                       0 < calculateCycleBudget (cat_baseLimit cat) (cat_baseFrequency cat)
                             (cycleMonthsOr1 s)) cats)"
  unfolding summarize_def chartData_unfold
  by (rule map_filter_enumerate) (simp_all add: chartRowOf_fields percentage_def Let_def)

text \<open>
  Groceries with a limit of 200 and expenses of 50 and 30 make a row at 40 percent; a
  category without a limit and without expenses makes no row.
\<close>

theorem chartData_rows_witness:
  "map (\<lambda>r. (row_id r, row_name r, row_value r, row_budgetLimit r, percentage r))
       (chartData
          (summarize sampleNow [groceries, legacyRent\<lparr>cat_budgetLimit := Undefined\<rparr>]
             [expenseAt ''t1'' 50 ''g1'' sampleNow, expenseAt ''t2'' 30 ''g1'' sampleNow]
             monthlySettings)) =
   [(''g1'', ''Groceries'', 80, 200, 40)]"
proof -
  have es: "cycleExpenses sampleNow monthlySettings
              [expenseAt ''t1'' 50 ''g1'' sampleNow, expenseAt ''t2'' 30 ''g1'' sampleNow] =
            [expenseAt ''t1'' 50 ''g1'' sampleNow, expenseAt ''t2'' 30 ''g1'' sampleNow]"
    using currentStart_le_now [OF clockDate_sampleNow]
    by (simp add: cycleExpenses_def filterData_def currentCycleStart_monthly expenseAt_def)
  have c1: "cycleMonthsOr1 monthlySettings = 1"
    by (simp add: cycleMonthsOr1_def monthlySettings_def)
  show ?thesis
    unfolding chartData_rows es c1
    by (simp add: spentOn_def expenseAt_def groceries_def legacyRent_def
        calculateCycleBudget_def orZero_def orElse_def)
qed

section \<open>Expenses of a category that no longer exists\<close>

lemma summaryIn_fields:
  "totalExpenses (summaryIn ar cats es bs s) = addUp ar es"
  "expenseByCategory (summaryIn ar cats es bs s) = foldl (addExpenseIn ar) Map.empty es"
  "chartData (summaryIn ar cats es bs s) =
     filter (\<lambda>item. 0 < row_value item \<or> 0 < row_budgetLimit item)
       (map (chartRowIn ar (foldl (addExpenseIn ar) Map.empty es) (cycleMonthsOr1 s))
          (enumerate 0 cats))"
  by (simp_all add: summaryIn_def addUp_def Let_def)

lemma calculateCycleBudgetIn_exact:
  "calculateCycleBudgetIn exact b f c = calculateCycleBudget b f c"
  by (simp add: calculateCycleBudgetIn_def calculateCycleBudget_def exact_def Let_def)

lemma addExpenseIn_exact: "addExpenseIn exact = addExpense"
  by (intro ext) (simp add: addExpenseIn_def addExpense_def exact_def)

lemma chartRowIn_exact: "chartRowIn exact = chartRowOf"
  by (intro ext) (simp add: chartRowIn_def chartRowOf_def calculateCycleBudgetIn_exact
      split: prod.splits)

lemma summaryIn_exact: "summaryIn exact cats es bs s = summary cats es bs s"
  by (simp add: summaryIn_def summary_def addExpenseIn_exact chartRowIn_exact
      calculateCycleBudgetIn_exact Let_def) (simp add: exact_def)

lemma lookupOrZero_foldl_addExpenseIn:
  "lookupOrZero (foldl (addExpenseIn ar) acc es) key =
   foldl (\<lambda>sum entry. plus_of ar sum (tx_amount entry)) (lookupOrZero acc key)
     (filter (\<lambda>t. tx_categoryId t = key) es)"
proof (induction es arbitrary: acc)
  case Nil
  show ?case by simp
next
  case (Cons e es)
  have "lookupOrZero (addExpenseIn ar acc e) key =
        (if tx_categoryId e = key then plus_of ar (lookupOrZero acc key) (tx_amount e)
         else lookupOrZero acc key)"
    by (simp add: addExpenseIn_def lookupOrZero_def Let_def)
  with Cons.IH [of "addExpenseIn ar acc e"] show ?case by simp
qed

lemma lookupOrZero_byCategory:
  "lookupOrZero (foldl (addExpenseIn ar) Map.empty es) key =
   addUp ar (filter (\<lambda>t. tx_categoryId t = key) es)"
  by (simp add: lookupOrZero_foldl_addExpenseIn lookupOrZero_empty addUp_def)

lemma chartRowIn_orphan:
  assumes "tx_categoryId e \<noteq> cat_id cat"
  shows "chartRowIn ar (foldl (addExpenseIn ar) Map.empty (es1 @ e # es2)) c (i, cat) =
         chartRowIn ar (foldl (addExpenseIn ar) Map.empty (es1 @ es2)) c (i, cat)"
proof -
  have "lookupOrZero (foldl (addExpenseIn ar) Map.empty (es1 @ e # es2)) (cat_id cat) =
        lookupOrZero (foldl (addExpenseIn ar) Map.empty (es1 @ es2)) (cat_id cat)"
    using assms unfolding lookupOrZero_byCategory by simp
  then show ?thesis by (simp add: chartRowIn_def Let_def del: foldl_append)
qed

lemma chartDataIn_orphan:
  assumes "tx_categoryId e \<notin> cat_id ` set cats"
  shows "chartData (summaryIn ar cats (es1 @ e # es2) bs s) =
         chartData (summaryIn ar cats (es1 @ es2) bs' s)"
proof -
  have "chartRowIn ar (foldl (addExpenseIn ar) Map.empty (es1 @ e # es2)) c ic =
        chartRowIn ar (foldl (addExpenseIn ar) Map.empty (es1 @ es2)) c ic"
    if "ic \<in> set (enumerate 0 cats)" for ic c
  proof -
    obtain i cat where ic: "ic = (i, cat)" by (cases ic)
    with that have "cat \<in> set cats" by (auto simp: in_set_enumerate_eq)
    with assms have "tx_categoryId e \<noteq> cat_id cat" by auto
    then show ?thesis unfolding ic by (rule chartRowIn_orphan)
  qed
  then show ?thesis unfolding summaryIn_fields by (simp cong: map_cong del: foldl_append)
qed

lemma chartDataIn_ids:
  "row_id ` set (chartData (summaryIn ar cats es bs s)) \<subseteq> cat_id ` set cats"
  unfolding summaryIn_fields
  by (auto simp: chartRowIn_def Let_def in_set_enumerate_eq)

text \<open>
  Claim C10, as the code has it. A current-cycle expense whose \<^verbatim>\<open>categoryId\<close> matches no
  category contributes its amount to \<open>totalExpenses\<close> and to its entry of
  \<open>expenseByCategory\<close>: it is one of the amounts that the two running sums add up, at
  its place in the log. It has no per-category row and changes no row. This holds in
  every arithmetic, whatever the rounding; in the exact arithmetic the summary is the
  one of the sections above, and both sums grow by the full amount.
\<close>

theorem orphan_expense:
  "(tx_type e = ''expense'' \<and>
    valueOf (currentCycleStart now s) \<le> valueOf (tx_timestamp e) \<and>
    tx_categoryId e \<notin> cat_id ` set cats \<longrightarrow>
      totalExpenses (summarizeIn ar now cats (xs @ e # ys) s) =
        addUp ar (cycleExpenses now s xs @ e # cycleExpenses now s ys) \<and>
      lookupOrZero (expenseByCategory (summarizeIn ar now cats (xs @ e # ys) s))
          (tx_categoryId e) =
        addUp ar (filter (\<lambda>t. tx_categoryId t = tx_categoryId e) (cycleExpenses now s xs) @
                  e # filter (\<lambda>t. tx_categoryId t = tx_categoryId e) (cycleExpenses now s ys)) \<and>
      chartData (summarizeIn ar now cats (xs @ e # ys) s) =
        chartData (summarizeIn ar now cats (xs @ ys) s) \<and>
      tx_categoryId e \<notin> row_id ` set (chartData (summarizeIn ar now cats (xs @ e # ys) s)) \<and>
      totalExpenses (summarizeIn exact now cats (xs @ e # ys) s) =
        totalExpenses (summarizeIn exact now cats (xs @ ys) s) + tx_amount e \<and>
      lookupOrZero (expenseByCategory (summarizeIn exact now cats (xs @ e # ys) s))
          (tx_categoryId e) =
        lookupOrZero (expenseByCategory (summarizeIn exact now cats (xs @ ys) s))
          (tx_categoryId e) + tx_amount e) \<and>
   summarizeIn exact now cats zs s = summarize now cats zs s"
proof (intro conjI impI)
  show "summarizeIn exact now cats zs s = summarize now cats zs s"
    by (simp add: summarizeIn_def summarize_def summaryIn_exact)
next
  assume h: "tx_type e = ''expense'' \<and>
    valueOf (currentCycleStart now s) \<le> valueOf (tx_timestamp e) \<and>
    tx_categoryId e \<notin> cat_id ` set cats"
  then have ins: "cycleExpenses now s (xs @ e # ys) =
      cycleExpenses now s xs @ e # cycleExpenses now s ys"
    by (simp add: cycleExpenses_insert)
  note app = cycleExpenses_append [of now s xs ys]
  show "totalExpenses (summarizeIn ar now cats (xs @ e # ys) s) =
        addUp ar (cycleExpenses now s xs @ e # cycleExpenses now s ys)"
    by (simp add: summarizeIn_def summaryIn_fields ins)
  show "lookupOrZero (expenseByCategory (summarizeIn ar now cats (xs @ e # ys) s))
          (tx_categoryId e) =
        addUp ar (filter (\<lambda>t. tx_categoryId t = tx_categoryId e) (cycleExpenses now s xs) @
                  e # filter (\<lambda>t. tx_categoryId t = tx_categoryId e) (cycleExpenses now s ys))"
    unfolding summarizeIn_def summaryIn_fields ins lookupOrZero_byCategory by simp
  show "chartData (summarizeIn ar now cats (xs @ e # ys) s) =
        chartData (summarizeIn ar now cats (xs @ ys) s)"
    unfolding summarizeIn_def ins app using h by (intro chartDataIn_orphan) simp
  show "tx_categoryId e \<notin> row_id ` set (chartData (summarizeIn ar now cats (xs @ e # ys) s))"
    using h chartDataIn_ids [of ar cats] unfolding summarizeIn_def by blast
  show "totalExpenses (summarizeIn exact now cats (xs @ e # ys) s) =
        totalExpenses (summarizeIn exact now cats (xs @ ys) s) + tx_amount e"
    by (simp add: summarizeIn_def summaryIn_exact summary_totals ins app)
  show "lookupOrZero (expenseByCategory (summarizeIn exact now cats (xs @ e # ys) s))
          (tx_categoryId e) =
        lookupOrZero (expenseByCategory (summarizeIn exact now cats (xs @ ys) s))
          (tx_categoryId e) + tx_amount e"
    unfolding summarizeIn_def summaryIn_exact expenseByCategory_spentOn ins app
    by (simp add: spentOn_def)
qed

text \<open>
  Groceries with expenses of 50 and 30, and between them an expense of 25 on a category
  that was deleted, in the arithmetic of the doubles: the rows are the same with and
  without the unmatched expense, they sum to 80, and the total is 105, strictly more.
\<close>

theorem orphan_expense_witness:
  "tx_type (expenseAt ''t3'' 25 ''gone'' sampleNow) = ''expense'' \<and>
   valueOf (currentCycleStart sampleNow monthlySettings)
     \<le> valueOf (tx_timestamp (expenseAt ''t3'' 25 ''gone'' sampleNow)) \<and>
   tx_categoryId (expenseAt ''t3'' 25 ''gone'' sampleNow) \<notin> cat_id ` set [groceries] \<and>
   chartData
     (summarizeIn ieee sampleNow [groceries]
        ([expenseAt ''t1'' 50 ''g1'' sampleNow] @ expenseAt ''t3'' 25 ''gone'' sampleNow #
         [expenseAt ''t2'' 30 ''g1'' sampleNow]) monthlySettings) =
   chartData
     (summarizeIn ieee sampleNow [groceries]
        ([expenseAt ''t1'' 50 ''g1'' sampleNow] @ [expenseAt ''t2'' 30 ''g1'' sampleNow])
        monthlySettings) \<and>
   map row_value (chartData
     (summarizeIn ieee sampleNow [groceries]
        ([expenseAt ''t1'' 50 ''g1'' sampleNow] @ expenseAt ''t3'' 25 ''gone'' sampleNow #
         [expenseAt ''t2'' 30 ''g1'' sampleNow]) monthlySettings)) = [80] \<and>
   lookupOrZero (expenseByCategory
     (summarizeIn ieee sampleNow [groceries]
        ([expenseAt ''t1'' 50 ''g1'' sampleNow] @ expenseAt ''t3'' 25 ''gone'' sampleNow #
         [expenseAt ''t2'' 30 ''g1'' sampleNow]) monthlySettings)) ''gone'' = 25 \<and>
   totalExpenses
     (summarizeIn ieee sampleNow [groceries]
        ([expenseAt ''t1'' 50 ''g1'' sampleNow] @ expenseAt ''t3'' 25 ''gone'' sampleNow #
         [expenseAt ''t2'' 30 ''g1'' sampleNow]) monthlySettings) = 105"
proof -
  let ?e = "expenseAt ''t3'' 25 ''gone'' sampleNow"
  let ?xs = "[expenseAt ''t1'' 50 ''g1'' sampleNow]"
  let ?ys = "[expenseAt ''t2'' 30 ''g1'' sampleNow]"
  have le: "valueOf (currentCycleStart sampleNow monthlySettings) \<le> valueOf sampleNow"
    using currentStart_le_now [OF clockDate_sampleNow] by (simp add: currentCycleStart_monthly)
  have h: "tx_type ?e = ''expense'' \<and>
    valueOf (currentCycleStart sampleNow monthlySettings) \<le> valueOf (tx_timestamp ?e) \<and>
    tx_categoryId ?e \<notin> cat_id ` set [groceries]"
    using le by (simp add: expenseAt_def groceries_def)
  have rows: "map row_value (chartData
     (summarizeIn ieee sampleNow [groceries] (?xs @ ?e # ?ys) monthlySettings)) = [80]"
    by code_simp
  have cat: "lookupOrZero (expenseByCategory
     (summarizeIn ieee sampleNow [groceries] (?xs @ ?e # ?ys) monthlySettings)) ''gone'' = 25"
    by code_simp
  have tot: "totalExpenses
     (summarizeIn ieee sampleNow [groceries] (?xs @ ?e # ?ys) monthlySettings) = 105"
    by code_simp
  from h orphan_expense [of ?e sampleNow monthlySettings "[groceries]" ieee ?xs ?ys "[]"]
  have "chartData (summarizeIn ieee sampleNow [groceries] (?xs @ ?e # ?ys) monthlySettings) =
        chartData (summarizeIn ieee sampleNow [groceries] (?xs @ ?ys) monthlySettings)"
    by blast
  with h rows cat tot show ?thesis by blast
qed

text \<open>
  The claim as it is written goes on to bound the sum of the spent values of the rows
  by \<open>totalExpenses\<close>. The rows add up the amounts of each category, the total adds up
  all amounts in the order of the log, and the two round differently. With the
  categories \<^verbatim>\<open>a\<close> and \<^verbatim>\<open>b\<close> and the expenses 4.08 on \<^verbatim>\<open>b\<close>, 7.39 and 16.8 on \<^verbatim>\<open>a\<close>, all
  logged now, the rows are 24.19 and 4.08 as doubles and the total is 28.27 as a double,
  which is less than the sum of the two rows.
\<close>

theorem orphan_rounding_counterexample:
  "totalExpenses (summarizeIn ieee sampleNow [foodCat, fuelCat] roundingLog monthlySettings) =
     roundDouble (2827 / 100) \<and>
   map row_value
     (chartData (summarizeIn ieee sampleNow [foodCat, fuelCat] roundingLog monthlySettings)) =
     [roundDouble (2419 / 100), roundDouble (408 / 100)] \<and>
   \<not> sum_list (map row_value
         (chartData (summarizeIn ieee sampleNow [foodCat, fuelCat] roundingLog monthlySettings)))
       \<le> totalExpenses
         (summarizeIn ieee sampleNow [foodCat, fuelCat] roundingLog monthlySettings)"
  by code_simp

section \<open>The historical windows\<close>

lemma newDate_same_day:
  assumes "clockDate now"
  shows "newDate (getFullYear now) (getMonth now) (getDate now) =
         \<lparr>getFullYear = getFullYear now, getMonth = getMonth now, getDate = getDate now,
          msOfDay = 0\<rparr>"
proof -
  have y: "(if 0 \<le> getFullYear now \<and> getFullYear now \<le> 99 then 1900 + getFullYear now
            else getFullYear now) = getFullYear now"
    using assms by (auto simp: clockDate_def)
  have m: "getMonth now div 12 = 0" "getMonth now mod 12 = getMonth now"
    using assms by (simp_all add: clockDate_def validDate_def)
  have "normDay (getFullYear now) (getMonth now) (getDate now) =
        (getFullYear now, getMonth now, getDate now)"
    using assms by (intro normDay_in_range) (simp_all add: clockDate_def validDate_def)
  then show ?thesis
    by (simp add: newDate_def makeDay_def y m)
qed

lemma monthIndex_fields:
  "monthIndex \<lparr>getFullYear = y + k div 12, getMonth = k mod 12, getDate = d, msOfDay = t\<rparr> =
   12 * y + k"
  by (simp add: monthIndex_def)

lemma cycleStartDate_fields:
  assumes "clockDate now"
  shows "cycleStartDate now c i =
         \<lparr>getFullYear = getFullYear now + (getMonth now - ((int i + 1) * c - 1)) div 12,
          getMonth = (getMonth now - ((int i + 1) * c - 1)) mod 12, getDate = 1, msOfDay = 0\<rparr>"
proof -
  have "getMonth now - (int i + 1) * c + 1 = getMonth now - ((int i + 1) * c - 1)" by simp
  then show ?thesis
    by (simp only: cycleStartDate_def Let_def newDate_first [OF assms] setMonth_first)
qed

lemma cycleStartDate_back:
  assumes "clockDate now" "1 \<le> c"
  shows "cycleStartDate now c i = monthsBack (nat ((int i + 1) * c - 1)) (truncateToMonth now)"
proof -
  have m: "0 \<le> getMonth now" "getMonth now < 12"
    using assms(1) by (simp_all add: clockDate_def validDate_def)
  have "1 * 1 \<le> (int i + 1) * c"
    using assms(2) by (intro mult_mono) simp_all
  then have "0 \<le> (int i + 1) * c - 1" by simp
  then show ?thesis
    by (simp add: cycleStartDate_fields [OF assms(1)] truncateToMonth_fields
        monthsBack_fields [OF m])
qed

lemma cycleEndDate_normDay:
  assumes "clockDate now"
  shows "cycleEndDate now c i =
         (case normDay (getFullYear now + (getMonth now - int i * c) div 12)
                 ((getMonth now - int i * c) mod 12) (getDate now) of
            (y', m', d') \<Rightarrow> \<lparr>getFullYear = y', getMonth = m', getDate = d', msOfDay = 0\<rparr>)"
  by (simp add: cycleEndDate_def Let_def newDate_same_day [OF assms] setMonth_def makeDay_def)

lemma monthIndex_nextMonth:
  "0 \<le> m \<Longrightarrow> m < 12 \<Longrightarrow>
   12 * fst (nextMonth (y, m)) + snd (nextMonth (y, m)) = 12 * y + m + 1"
  by (simp add: nextMonth_def)

lemma cycleEndDate_monthIndex:
  assumes "clockDate now"
  shows "monthIndex now - int i * c \<le> monthIndex (cycleEndDate now c i)"
    and "monthIndex (cycleEndDate now c i) \<le> monthIndex now - int i * c + 1"
proof -
  let ?Y = "getFullYear now + (getMonth now - int i * c) div 12"
  let ?M = "(getMonth now - int i * c) mod 12"
  have m: "1 \<le> getDate now" "getDate now \<le> 31"
    using assms(1) daysInMonth_le [of "getFullYear now" "getMonth now"]
    by (simp_all add: clockDate_def validDate_def)
  have ym: "12 * ?Y + ?M = monthIndex now - int i * c"
    by (simp add: monthIndex_def)
  have "monthIndex now - int i * c \<le> monthIndex (cycleEndDate now c i) \<and>
        monthIndex (cycleEndDate now c i) \<le> monthIndex now - int i * c + 1"
  proof (cases "getDate now \<le> daysInMonth ?Y ?M")
    case True
    with m have "normDay ?Y ?M (getDate now) = (?Y, ?M, getDate now)"
      by (intro normDay_in_range)
    then have "monthIndex (cycleEndDate now c i) = 12 * ?Y + ?M"
      by (simp add: cycleEndDate_normDay [OF assms(1)] monthIndex_def)
    with ym show ?thesis by simp
  next
    case False
    with m have "normDay ?Y ?M (getDate now) =
        (fst (nextMonth (?Y, ?M)), snd (nextMonth (?Y, ?M)), getDate now - daysInMonth ?Y ?M)"
      by (intro normDay_overflow) simp_all
    then have "monthIndex (cycleEndDate now c i) =
               12 * fst (nextMonth (?Y, ?M)) + snd (nextMonth (?Y, ?M))"
      by (simp add: cycleEndDate_normDay [OF assms(1)] monthIndex_def)
    also have "\<dots> = 12 * ?Y + ?M + 1"
      by (rule monthIndex_nextMonth) simp_all
    finally show ?thesis using ym by simp
  qed
  then show "monthIndex now - int i * c \<le> monthIndex (cycleEndDate now c i)"
    and "monthIndex (cycleEndDate now c i) \<le> monthIndex now - int i * c + 1"
    by simp_all
qed

lemma cycleStartDate_monthIndex:
  assumes "clockDate now"
  shows "monthIndex (cycleStartDate now c i) = monthIndex now - ((int i + 1) * c - 1)"
  by (simp only: cycleStartDate_fields [OF assms] monthIndex_fields) (simp add: monthIndex_def)

lemma cycleData_nth:
  assumes "xs \<noteq> []" "c \<noteq> 0" "k < 5"
  shows "cycleData fm fmy now xs c ! k = cycleEntryAt fm fmy now xs c (4 - k)"
proof -
  have "rev (map (cycleEntryAt fm fmy now xs c) [0..<5]) ! k =
        map (cycleEntryAt fm fmy now xs c) [0..<5] ! (4 - k)"
    using assms(3) by (simp add: rev_nth)
  also have "\<dots> = cycleEntryAt fm fmy now xs c (4 - k)"
    using assms(3) by (subst nth_map) simp_all
  finally show ?thesis
    using assms(1,2) by (simp add: cycleData_entries numCycles_def)
qed

lemma cycleData_last:
  assumes "xs \<noteq> []" "c \<noteq> 0"
  shows "last (cycleData fm fmy now xs c) = cycleEntryAt fm fmy now xs c 0"
  using assms by (simp add: cycleData_entries numCycles_def last_rev upt_conv_Cons)

lemma cycleEntryAt_fields:
  "entry_name (cycleEntryAt fm fmy now xs c 0) = ''Current''"
  "entry_isCurrent (cycleEntryAt fm fmy now xs c i) = (i = 0)"
  "entry_Expenses (cycleEntryAt fm fmy now xs c i) =
     sum_list (map tx_amount
       (windowExpenses xs (cycleStartDate now c i) (cycleEndDate now c i)))"
  by (simp_all add: cycleEntryAt_def cycleLabel_def Let_def foldl_add_sum_list)

text \<open>
  What the loop builds, for every reading \<open>now\<close> of the clock, every cycle length of at
  least one month and every non-empty transaction list: five entries, ordered from the
  oldest window to the newest, the last one the current window, labelled \<^verbatim>\<open>Current\<close>;
  the entry of window \<open>i\<close> sums the expenses between \<open>startDate\<close> and \<open>endDate\<close>, where
  \<open>startDate\<close> is the first of the month of \<open>now\<close> at midnight, shifted back
  \<open>(i + 1) * cycleMonths - 1\<close> months; an older window starts in an earlier month, and
  between the month a window ends in and the first month of the next newer window no
  month is left out.
\<close>

lemma cycleData_windows:
  assumes "clockDate now" and "1 \<le> c" and "expenses \<noteq> []"
  shows
    "length (cycleData fm fmy now expenses c) = 5 \<and>
     (\<forall>k<5. cycleData fm fmy now expenses c ! k = cycleEntryAt fm fmy now expenses c (4 - k)) \<and>
     (\<forall>k<5. entry_isCurrent (cycleData fm fmy now expenses c ! k) = (k = 4)) \<and>
     entry_name (last (cycleData fm fmy now expenses c)) = ''Current'' \<and>
     (\<forall>i. entry_Expenses (cycleEntryAt fm fmy now expenses c i) =
            sum_list (map tx_amount
              (windowExpenses expenses (cycleStartDate now c i) (cycleEndDate now c i)))) \<and>
     (\<forall>i. cycleStartDate now c i =
            monthsBack (nat ((int i + 1) * c - 1)) (truncateToMonth now)) \<and>
     (\<forall>i. monthIndex (cycleStartDate now c (i + 1)) < monthIndex (cycleStartDate now c i) \<and>
           monthIndex (cycleStartDate now c i) \<le> monthIndex (cycleEndDate now c i) \<and>
           monthIndex (cycleStartDate now c i) \<le> monthIndex (cycleEndDate now c (i + 1)) + 1)"
proof -
  have c0: "c \<noteq> 0" "0 \<le> c" using assms(2) by simp_all
  have len: "length (cycleData fm fmy now expenses c) = 5"
    using assms(3) c0 by (simp add: cycleData_entries numCycles_def)
  have nth: "\<forall>k<5. cycleData fm fmy now expenses c ! k =
                    cycleEntryAt fm fmy now expenses c (4 - k)"
    using assms(3) c0 by (simp add: cycleData_nth)
  have cur: "\<forall>k<5. entry_isCurrent (cycleData fm fmy now expenses c ! k) = (k = 4)"
  proof (intro allI impI)
    fix k :: nat
    assume "k < 5"
    then show "entry_isCurrent (cycleData fm fmy now expenses c ! k) = (k = 4)"
      using assms(3) c0 by (auto simp: cycleData_nth cycleEntryAt_fields)
  qed
  have lst: "entry_name (last (cycleData fm fmy now expenses c)) = ''Current''"
    using assms(3) c0 by (simp add: cycleData_last cycleEntryAt_fields)
  have months: "monthIndex (cycleStartDate now c (i + 1)) < monthIndex (cycleStartDate now c i) \<and>
           monthIndex (cycleStartDate now c i) \<le> monthIndex (cycleEndDate now c i) \<and>
           monthIndex (cycleStartDate now c i) \<le> monthIndex (cycleEndDate now c (i + 1)) + 1" for i
  proof -
    have s: "monthIndex (cycleStartDate now c j) = monthIndex now - ((int j + 1) * c - 1)" for j
      by (rule cycleStartDate_monthIndex [OF assms(1)])
    have e: "monthIndex now - int j * c \<le> monthIndex (cycleEndDate now c j)" for j
      by (rule cycleEndDate_monthIndex [OF assms(1)])
    have "monthIndex (cycleStartDate now c (i + 1)) < monthIndex (cycleStartDate now c i)"
      using assms(2) by (simp add: s algebra_simps)
    moreover have "monthIndex (cycleStartDate now c i) \<le> monthIndex (cycleEndDate now c i)"
      using assms(2) e [of i] by (simp add: s algebra_simps)
    moreover have "monthIndex (cycleStartDate now c i) \<le> monthIndex (cycleEndDate now c (i + 1)) + 1"
      using e [of "i + 1"] by (simp add: s algebra_simps)
    ultimately show ?thesis by simp
  qed
  show ?thesis
    using len nth cur lst months
    by (simp add: cycleEntryAt_fields cycleStartDate_back [OF assms(1,2)])
qed

text \<open>
  Claim C5. For every \<open>now\<close> and every cycle length of at least one month, the series
  over a non-empty transaction list has five entries, oldest first, the last one
  labelled \<^verbatim>\<open>Current\<close>, where the entry of window \<open>i\<close> (counted back from the present)
  has \<open>endDate\<close> equal to \<open>now\<close> shifted back \<open>i * cycleMonths\<close> calendar months and
  \<open>startDate\<close> equal to the first of the month of \<open>now\<close> shifted back
  \<open>(i + 1) * cycleMonths - 1\<close> months, with no gaps between the month spans of
  consecutive windows.

  The code does not meet the statement on \<open>endDate\<close>. The source builds \<open>endDate\<close> from the
  year, month and day of \<open>now\<close>, sets its month, and then announces
  \<^verbatim>\<open>// Adjust end date to the end of the month/cycle\<close> without adjusting anything. At
  10:30 on 31 March 2024 with a cycle of one month, the \<open>endDate\<close> of the current window
  is the midnight that began the day, not \<open>now\<close>, so that an expense logged now is in
  no window; the \<open>endDate\<close> of the window before it is 2 March, not a day of February,
  so that an expense of 1 March is counted in that window and in the current one.
\<close>

theorem historical_cycles_failing_input:
  "cycleEndDate march31 1 0 \<noteq> shiftedBack march31 1 0 \<and>
   shiftedBack march31 1 0 = march31 \<and>
   cycleEndDate march31 1 0 =
     \<lparr>getFullYear = 2024, getMonth = 2, getDate = 31, msOfDay = 0\<rparr> \<and>
   cycleEndDate march31 1 1 =
     \<lparr>getFullYear = 2024, getMonth = 2, getDate = 2, msOfDay = 0\<rparr> \<and>
   getMonth (shiftedBack march31 1 1) = 1 \<and>
   map entry_Expenses
     (cycleData enUS_month enUS_monthYear march31 [expenseAt ''t1'' 50 ''g1'' march31] 1) =
     [0, 0, 0, 0, 0] \<and>
   map entry_Expenses
     (cycleData enUS_month enUS_monthYear march31 [expenseAt ''t2'' 7 ''g1'' march1Noon] 1) =
     [0, 0, 0, 7, 7]"
  by code_simp

end
